theory Spec2Isabelle
  imports Main "HOL-Library.Char_ord" "HOL-Library.List_Lexorder" "HOL-Library.Multiset"
begin

section \<open>Notes page: course filter, pagination and page initialisation\<close>

text \<open>
  The repository holds two versions of the notes page script: \<^verbatim>\<open>static/notes-page.js\<close>, which
  derives the course index from a flat list of course codes (the global \<^verbatim>\<open>CLASSES\<close>), and a later
  version which receives the index from the server (\<^verbatim>\<open>COURSES_DICT\<close>, \<^verbatim>\<open>SUBJECTS\<close>). The functions
  of the second version carry the suffix \<open>_s\<close> where they differ from the first.

  JavaScript strings are modelled as \<^typ>\<open>string\<close>: one \<^typ>\<open>char\<close> per code unit, which covers
  the code units below 256. Element lookups by id that the source does not guard are taken to
  succeed: the elements are fields of the page record. Lookups the source guards are optional
  fields.
\<close>

subsection \<open>Course codes: the regular expression \<^verbatim>\<open>/^([A-Z]+)(\d+)$/\<close>\<close>

definition is_upper :: "char \<Rightarrow> bool" where
  "is_upper c = (CHR ''A'' \<le> c \<and> c \<le> CHR ''Z'')"

definition is_digit :: "char \<Rightarrow> bool" where
  "is_digit c = (CHR ''0'' \<le> c \<and> c \<le> CHR ''9'')"

text \<open>
  \<^verbatim>\<open>cls.match(/^([A-Z]+)(\d+)$/)\<close>: the first group takes the longest run of capital letters
  (giving letters back cannot help, a capital letter is no digit), the second group must then
  take all that is left, at least one character, all of them digits. \<open>None\<close> is JavaScript's
  \<^verbatim>\<open>null\<close>; \<open>Some (subject, number)\<close> stands for the match array, whose entries 1 and 2 the
  source reads.
\<close>

definition match_code :: "string \<Rightarrow> (string \<times> string) option" where
  "match_code cls =
     (let subject = takeWhile is_upper cls;
          number = dropWhile is_upper cls
      in if subject \<noteq> [] \<and> number \<noteq> [] \<and> list_all is_digit number
         then Some (subject, number) else None)"

text \<open>
  The language of \<^verbatim>\<open>^[A-Z]+[0-9]+$\<close>, written as the data model words it: some split of the
  string into a non-empty prefix of capital letters and a non-empty suffix of digits.
\<close>

definition is_course_code :: "string \<Rightarrow> bool" where
  "is_course_code code =
     list_ex (\<lambda>n. list_all is_upper (take n code) \<and> list_all is_digit (drop n code))
       [1 ..< length code]"

subsection \<open>Numbers\<close>

text \<open>
  A JavaScript Number is a double. The page only ever holds integral ones (results of
  \<^verbatim>\<open>parseInt\<close>, sums and differences of those): \<open>Num i\<close> is the double of integral value \<open>i\<close>,
  with \<open>-0\<close> and \<open>+0\<close> identified, which no operation used here tells apart.
  \<open>to_double\<close> rounds an integer to the nearest double, ties to the even significand, and
  overflows to an infinity.
\<close>

datatype jsnum = NaN | Num int | PosInf | NegInf

function bit_length :: "int \<Rightarrow> nat" where
  "bit_length n = (if n \<le> 0 then 0 else Suc (bit_length (n div 2)))"
  by pat_completeness auto
termination
  by (relation "measure nat") auto

declare bit_length.simps [simp del]

definition to_double :: "int \<Rightarrow> jsnum" where
  "to_double i =
     (let m = \<bar>i\<bar> in
      if m < 2 ^ 53 then Num i
      else
        let e = bit_length m - 53;
            q = m div 2 ^ e;
            r = m mod 2 ^ e;
            h = 2 ^ (e - 1);
            q' = (if h < r \<or> (r = h \<and> odd q) then q + 1 else q);
            v = q' * 2 ^ e
        in if 2 ^ 1024 \<le> v then (if i < 0 then NegInf else PosInf)
           else Num (if i < 0 then - v else v))"

fun js_neg :: "jsnum \<Rightarrow> jsnum" where
  "js_neg NaN = NaN"
| "js_neg (Num a) = Num (- a)"
| "js_neg PosInf = NegInf"
| "js_neg NegInf = PosInf"

text \<open>The operators \<^verbatim>\<open>+\<close>, \<^verbatim>\<open>-\<close> and \<^verbatim>\<open><=\<close> on Numbers.\<close>

fun js_add :: "jsnum \<Rightarrow> jsnum \<Rightarrow> jsnum" where
  "js_add (Num a) (Num b) = to_double (a + b)"
| "js_add NaN y = NaN"
| "js_add x NaN = NaN"
| "js_add PosInf NegInf = NaN"
| "js_add NegInf PosInf = NaN"
| "js_add PosInf y = PosInf"
| "js_add NegInf y = NegInf"
| "js_add (Num a) y = y"

definition js_sub :: "jsnum \<Rightarrow> jsnum \<Rightarrow> jsnum" where
  "js_sub x y = js_add x (js_neg y)"

fun js_le :: "jsnum \<Rightarrow> jsnum \<Rightarrow> bool" where
  "js_le (Num a) (Num b) = (a \<le> b)"
| "js_le NaN y = False"
| "js_le x NaN = False"
| "js_le NegInf y = True"
| "js_le x PosInf = True"
| "js_le x y = False"

text \<open>
  \<^verbatim>\<open>parseInt(string)\<close> without a radix: leading white space is skipped, a sign is read, the
  prefix \<^verbatim>\<open>0x\<close> selects radix 16, and the longest run of digits of the radix is the value; no
  digit at all gives \<^verbatim>\<open>NaN\<close>. The value is rounded as \<open>to_double\<close> does (the language
  definition lets an implementation round less exactly past the 20th decimal digit).
\<close>

definition is_white_space :: "char \<Rightarrow> bool" where
  "is_white_space c = (of_char c \<in> {9, 10, 11, 12, 13, 32, 160 :: nat})"

definition radix_digit :: "int \<Rightarrow> char \<Rightarrow> int option" where
  "radix_digit R c =
     (let v = (if is_digit c then Some (int (of_char c) - 48)
               else if CHR ''a'' \<le> c \<and> c \<le> CHR ''z'' then Some (int (of_char c) - 87)
               else if CHR ''A'' \<le> c \<and> c \<le> CHR ''Z'' then Some (int (of_char c) - 55)
               else None)
      in case v of None \<Rightarrow> None | Some d \<Rightarrow> if d < R then Some d else None)"

definition radix_value :: "int \<Rightarrow> string \<Rightarrow> int" where
  "radix_value R Z =
     foldl (\<lambda>acc c. acc * R + (case radix_digit R c of None \<Rightarrow> 0 | Some d \<Rightarrow> d)) 0 Z"

definition parseInt :: "string \<Rightarrow> jsnum" where
  "parseInt inputString =
     (let S = dropWhile is_white_space inputString;
          minus = (take 1 S = ''-'');
          S1 = (if take 1 S = ''+'' \<or> take 1 S = ''-'' then drop 1 S else S);
          hex = (take 2 S1 = ''0x'' \<or> take 2 S1 = ''0X'');
          R = (if hex then 16 else 10);
          S2 = (if hex then drop 2 S1 else S1);
          Z = takeWhile (\<lambda>c. radix_digit R c \<noteq> None) S2
      in if Z = [] then NaN
         else to_double ((if minus then - 1 else 1) * radix_value R Z))"

subsection \<open>Arrays, sets and objects\<close>

text \<open>
  \<^verbatim>\<open>array.sort(comparefn)\<close>. The language definition fixes the result for a consistent
  comparison function: the elements in ascending order, equal ones in their former order.
  \<open>sort_with\<close> computes that result, by insertion from the right end; a comparison result that
  is not a positive number (zero, negative, \<^verbatim>\<open>NaN\<close>, which the sort reads as zero) leaves \<open>x\<close>
  before \<open>y\<close>. \<^verbatim>\<open>array.sort()\<close> without a function orders strings by their code units, which
  is \<^const>\<open>sort\<close> on \<^typ>\<open>string\<close>.
\<close>

fun positive :: "jsnum \<Rightarrow> bool" where
  "positive (Num v) = (0 < v)"
| "positive PosInf = True"
| "positive v = False"

fun insert_sorted :: "('a \<Rightarrow> 'a \<Rightarrow> jsnum) \<Rightarrow> 'a \<Rightarrow> 'a list \<Rightarrow> 'a list" where
  "insert_sorted comparefn x [] = [x]"
| "insert_sorted comparefn x (y # ys) =
     (if positive (comparefn x y) then y # insert_sorted comparefn x ys else x # y # ys)"

definition sort_with :: "('a \<Rightarrow> 'a \<Rightarrow> jsnum) \<Rightarrow> 'a list \<Rightarrow> 'a list" where
  "sort_with comparefn xs = foldr (insert_sorted comparefn) xs []"

text \<open>
  A comparison function is consistent on the elements of an array when its answers (less,
  equal, greater) are those of a total order on classes of equal elements: equality is
  reflexive, symmetric and transitive, and less and greater are transitive. When it is not,
  the language leaves the order of the result to the engine, and engines differ. The first
  version of the script sorts arrays of digit strings only, taken from matches, and its
  comparison is consistent on those. The second version sorts whatever strings the server
  sent: there the sort of the engine is the parameter \<open>array_sort\<close>, of which \<open>conforming\<close>
  says what holds in every engine: the result is a rearrangement of the array, and it is the
  result that the language fixes whenever the comparison is consistent on the array.
\<close>

fun negative :: "jsnum \<Rightarrow> bool" where
  "negative (Num v) = (v < 0)"
| "negative NegInf = True"
| "negative v = False"

definition consistent :: "('a \<Rightarrow> 'a \<Rightarrow> jsnum) \<Rightarrow> 'a list \<Rightarrow> bool" where
  "consistent comparefn xs =
     (let less = (\<lambda>a b. negative (comparefn a b));
          greater = (\<lambda>a b. positive (comparefn a b));
          equal = (\<lambda>a b. \<not> less a b \<and> \<not> greater a b)
      in (\<forall>a \<in> set xs. equal a a) \<and>
         (\<forall>a \<in> set xs. \<forall>b \<in> set xs. equal a b \<longrightarrow> equal b a) \<and>
         (\<forall>a \<in> set xs. \<forall>b \<in> set xs. \<forall>c \<in> set xs.
            (equal a b \<and> equal b c \<longrightarrow> equal a c) \<and>
            (less a b \<and> less b c \<longrightarrow> less a c) \<and>
            (greater a b \<and> greater b c \<longrightarrow> greater a c)))"

type_synonym array_sort = "(string \<Rightarrow> string \<Rightarrow> jsnum) \<Rightarrow> string list \<Rightarrow> string list"

definition conforming :: "array_sort \<Rightarrow> bool" where
  "conforming array_sort =
     (\<forall>comparefn xs.
        mset (array_sort comparefn xs) = mset xs \<and>
        (consistent comparefn xs \<longrightarrow> array_sort comparefn xs = sort_with comparefn xs))"

text \<open>A \<^verbatim>\<open>Set\<close> keeps its members in the order of their first insertion.\<close>

definition set_add :: "'a \<Rightarrow> 'a list \<Rightarrow> 'a list" where
  "set_add x xs = (if x \<in> set xs then xs else xs @ [x])"

text \<open>
  The objects of the page map subjects to arrays of number strings. Reading a property that
  the object does not own falls through to \<^verbatim>\<open>Object.prototype\<close>, whose members are functions
  (and, for \<^verbatim>\<open>__proto__\<close>, the prototype object): truthy values without array methods.
\<close>

datatype error = TypeError | SyntaxError

datatype jsval = Undefined | Arr "string list" | Inherited

definition Object_prototype :: "string list" where
  "Object_prototype =
     [''constructor'', ''hasOwnProperty'', ''isPrototypeOf'', ''propertyIsEnumerable'',
      ''toLocaleString'', ''toString'', ''valueOf'', ''__proto__'', ''__defineGetter__'',
      ''__defineSetter__'', ''__lookupGetter__'', ''__lookupSetter__'']"

definition get_property :: "(string \<rightharpoonup> string list) \<Rightarrow> string \<Rightarrow> jsval" where
  "get_property obj key =
     (case obj key of
        Some xs \<Rightarrow> Arr xs
      | None \<Rightarrow> if key \<in> set Object_prototype then Inherited else Undefined)"

fun truthy :: "jsval \<Rightarrow> bool" where
  "truthy Undefined = False"
| "truthy (Arr xs) = True"
| "truthy Inherited = True"

text \<open>\<^verbatim>\<open>array.forEach\<close> with a callback that updates the state and may throw.\<close>

fun forEach :: "('a \<Rightarrow> 's \<Rightarrow> error + 's) \<Rightarrow> 'a list \<Rightarrow> 's \<Rightarrow> error + 's" where
  "forEach f [] s = Inr s"
| "forEach f (x # xs) s = (case f x s of Inl e \<Rightarrow> Inl e | Inr s' \<Rightarrow> forEach f xs s')"

subsection \<open>The course index of \<^verbatim>\<open>static/notes-page.js\<close>\<close>

record course_index =
  subjects :: "string list"
  classesBySubject :: "string \<rightharpoonup> string list"

text \<open>
  The body of the \<^verbatim>\<open>CLASSES.forEach\<close> callback of \<^verbatim>\<open>parseClasses\<close>. While the index is built,
  \<open>subjects\<close> holds the members of the \<^verbatim>\<open>Set\<close>. \<^verbatim>\<open>push\<close> on a value that is no array throws.
\<close>

definition add_class :: "string \<Rightarrow> course_index \<Rightarrow> error + course_index" where
  "add_class cls acc =
     (case match_code cls of
        None \<Rightarrow> Inr acc
      | Some (subject, number) \<Rightarrow>
          let acc1 = acc\<lparr>subjects := set_add subject (subjects acc)\<rparr>;
              acc2 = (if \<not> truthy (get_property (classesBySubject acc1) subject)
                      then acc1\<lparr>classesBySubject := (classesBySubject acc1)(subject \<mapsto> [])\<rparr>
                      else acc1)
          in case get_property (classesBySubject acc2) subject of
               Arr numbers \<Rightarrow>
                 Inr (acc2\<lparr>classesBySubject :=
                            (classesBySubject acc2)(subject \<mapsto> numbers @ [number])\<rparr>)
             | Undefined \<Rightarrow> Inl TypeError
             | Inherited \<Rightarrow> Inl TypeError)"

definition parseClasses :: "string list \<Rightarrow> error + course_index" where
  "parseClasses classes =
     (case forEach add_class classes \<lparr>subjects = [], classesBySubject = Map.empty\<rparr> of
        Inl e \<Rightarrow> Inl e
      | Inr acc \<Rightarrow> Inr \<lparr>subjects = sort (subjects acc), classesBySubject = classesBySubject acc\<rparr>)"

subsection \<open>The page\<close>

text \<open>
  A single-choice \<^verbatim>\<open>select\<close> element: its options (value and label) and the index of the
  selected one. An index past the end stands for no selection. After every insertion or
  removal of an option the browser selects the first option when none is selected.
\<close>

record select_el =
  options :: "(string \<times> string) list"
  selectedIndex :: nat

definition select_value :: "select_el \<Rightarrow> string" where
  "select_value sel =
     (if selectedIndex sel < length (options sel) then fst (options sel ! selectedIndex sel)
      else [])"

definition appendChild :: "string \<times> string \<Rightarrow> bool \<Rightarrow> select_el \<Rightarrow> select_el" where
  "appendChild opt selected sel =
     \<lparr>options = options sel @ [opt],
      selectedIndex =
        (if selected then length (options sel)
         else if selectedIndex sel < length (options sel) then selectedIndex sel
         else 0)\<rparr>"

definition remove_option :: "nat \<Rightarrow> select_el \<Rightarrow> select_el" where
  "remove_option i sel =
     (if length (options sel) \<le> i then sel
      else
        \<lparr>options = take i (options sel) @ drop (Suc i) (options sel),
         selectedIndex =
           (if length (options sel) \<le> selectedIndex sel \<or> selectedIndex sel = i then 0
            else if i < selectedIndex sel then selectedIndex sel - 1
            else selectedIndex sel)\<rparr>)"

text \<open>\<^verbatim>\<open>while (subjectSelect.options.length > 1) subjectSelect.remove(1)\<close>\<close>

function remove_all_but_first :: "select_el \<Rightarrow> select_el" where
  "remove_all_but_first sel =
     (if 1 < length (options sel) then remove_all_but_first (remove_option 1 sel) else sel)"
  by pat_completeness auto
termination
  by (relation "measure (\<lambda>sel. length (options sel))") (auto simp: remove_option_def)

declare remove_all_but_first.simps [simp del]

text \<open>\<^verbatim>\<open>select.innerHTML = '<option value="">label</option>'\<close>\<close>

definition single_option :: "string \<Rightarrow> select_el" where
  "single_option label = \<lparr>options = [([], label)], selectedIndex = 0\<rparr>"

text \<open>
  The request of \<^verbatim>\<open>loadMore\<close>: the fields of the filter form other than \<^verbatim>\<open>page\<close>, and the
  page number that \<^verbatim>\<open>params.set\<close> writes. What comes back: the fetch fails, or a response
  arrives with its \<^verbatim>\<open>ok\<close> flag and its body, \<open>None\<close> when the body is no JSON.
\<close>

record request =
  req_params :: "(string \<times> string) list"
  req_page :: jsnum

record notes_data =
  html :: string
  has_more :: bool

datatype fetch_outcome = NetworkFailure | Response bool "notes_data option"

text \<open>
  The globals of the script and the elements it reads and writes. \<open>numberChoice\<close> and
  \<open>subjectChoice\<close> are \<open>None\<close> while undefined, afterwards the option list the widget was built
  on. \<open>course_filter_form\<close> lists the values of the hidden filter field at each
  \<^verbatim>\<open>submit()\<close>; \<open>load_more\<close> is the display style of the load-more button, \<open>None\<close> on a page
  without one; \<open>console_error\<close> collects what \<^verbatim>\<open>console.error\<close> is given; \<open>listeners\<close> the
  registered handlers.
\<close>

record page =
  currentPage :: jsnum
  CLASSES :: "string list"
  subjectChoice :: "(string \<times> string) list option"
  numberChoice :: "(string \<times> string) list option"
  subject_select :: select_el
  number_select :: select_el
  class_filter_hidden :: string
  course_filter_form :: "string list"
  filter_form :: "(string \<times> string) list"
  notes_container :: string
  load_more :: "string option"
  requests :: "request list"
  console_error :: "string list"
  listeners :: "(string \<times> string) list"

subsection \<open>Pagination\<close>

definition loadMore :: "fetch_outcome \<Rightarrow> 'a page_scheme \<Rightarrow> 'a page_scheme" where
  "loadMore outcome p =
     (let p1 = p\<lparr>currentPage := js_add (currentPage p) (Num 1)\<rparr>;
          p2 = p1\<lparr>requests := requests p1 @
                  [\<lparr>req_params = filter (\<lambda>kv. fst kv \<noteq> ''page'') (filter_form p1),
                    req_page = currentPage p1\<rparr>]\<rparr>;
          failed = p2\<lparr>console_error := console_error p2 @ [''Failed to load more notes'']\<rparr>
      in case outcome of
           NetworkFailure \<Rightarrow> failed
         | Response ok body \<Rightarrow>
             if \<not> ok then failed
             else
               (case body of
                  None \<Rightarrow> failed
                | Some data \<Rightarrow>
                    let p3 = p2\<lparr>notes_container := notes_container p2 @ html data\<rparr>
                    in if \<not> has_more data
                       then (case load_more p3 of
                               None \<Rightarrow> p3
                             | Some display \<Rightarrow> p3\<lparr>load_more := Some ''none''\<rparr>)
                       else p3))"

subsection \<open>The course filter of \<^verbatim>\<open>static/notes-page.js\<close>\<close>

text \<open>The subject or number a filter value selects: the groups of its match, else empty.\<close>

definition filter_subject :: "string option \<Rightarrow> string" where
  "filter_subject currentFilter =
     (case currentFilter of
        None \<Rightarrow> []
      | Some f \<Rightarrow>
          if f \<noteq> [] \<and> f \<noteq> ''All''
          then (case match_code f of None \<Rightarrow> [] | Some (subject, number) \<Rightarrow> subject)
          else [])"

definition filter_number :: "bool \<Rightarrow> string option \<Rightarrow> string" where
  "filter_number preserveSelection currentFilter =
     (case currentFilter of
        None \<Rightarrow> []
      | Some f \<Rightarrow>
          if preserveSelection \<and> f \<noteq> [] \<and> f \<noteq> ''All''
          then (case match_code f of None \<Rightarrow> [] | Some (subject, number) \<Rightarrow> number)
          else [])"

text \<open>The \<^verbatim>\<open>forEach\<close> loops that append one option per subject or number.\<close>

definition add_options :: "string \<Rightarrow> string list \<Rightarrow> select_el \<Rightarrow> select_el" where
  "add_options current values sel =
     fold (\<lambda>v. appendChild (v, v) (v = current)) values sel"

definition populateSubjects :: "string \<Rightarrow> 'a page_scheme \<Rightarrow> error + 'a page_scheme" where
  "populateSubjects currentFilter p =
     (case parseClasses (CLASSES p) of
        Inl e \<Rightarrow> Inl e
      | Inr index \<Rightarrow>
          let currentSubject = filter_subject (Some currentFilter);
              subjectSelect = remove_all_but_first (subject_select p)
          in Inr (p\<lparr>subject_select :=
                      add_options currentSubject (subjects index) subjectSelect\<rparr>))"

definition updateNumberDropdown ::
    "bool \<Rightarrow> string option \<Rightarrow> 'a page_scheme \<Rightarrow> error + 'a page_scheme" where
  "updateNumberDropdown preserveSelection currentFilter p =
     (case parseClasses (CLASSES p) of
        Inl e \<Rightarrow> Inl e
      | Inr index \<Rightarrow>
          let selectedSubject = select_value (subject_select p);
              currentNumber = filter_number preserveSelection currentFilter;
              p1 = p\<lparr>number_select := single_option ''All Numbers''\<rparr>
          in if selectedSubject \<noteq> [] then
               (case get_property (classesBySubject index) selectedSubject of
                  Undefined \<Rightarrow> Inr p1
                | Inherited \<Rightarrow> Inl TypeError
                | Arr numbers \<Rightarrow>
                    let sortedNumbers = sort_with (\<lambda>a b. js_sub (parseInt a) (parseInt b)) numbers
                    in Inr (p1\<lparr>number_select :=
                                add_options currentNumber sortedNumbers (number_select p1)\<rparr>))
             else Inr p1)"

definition submit :: "'a page_scheme \<Rightarrow> 'a page_scheme" where
  "submit p = p\<lparr>course_filter_form := course_filter_form p @ [class_filter_hidden p]\<rparr>"

definition applyClassFilter :: "'a page_scheme \<Rightarrow> 'a page_scheme" where
  "applyClassFilter p =
     (let selectedSubject = select_value (subject_select p);
          selectedNumber = select_value (number_select p);
          p1 = (if selectedSubject \<noteq> [] \<and> selectedNumber \<noteq> []
                then p\<lparr>class_filter_hidden := selectedSubject @ selectedNumber\<rparr>
                else if selectedSubject \<noteq> []
                then p\<lparr>class_filter_hidden := ''All''\<rparr>
                else p\<lparr>class_filter_hidden := ''All''\<rparr>)
      in submit p1)"

text \<open>
  \<^verbatim>\<open>numberChoice.destroy()\<close> throws while \<^verbatim>\<open>numberChoice\<close> is undefined; the new widget is
  built on the options the number dropdown has by then.
\<close>

definition renew_numberChoice :: "'a page_scheme \<Rightarrow> error + 'a page_scheme" where
  "renew_numberChoice p =
     (case numberChoice p of
        None \<Rightarrow> Inl TypeError
      | Some old \<Rightarrow> Inr (p\<lparr>numberChoice := Some (options (number_select p))\<rparr>))"

definition handleSubjectChange :: "'a page_scheme \<Rightarrow> error + 'a page_scheme" where
  "handleSubjectChange p =
     (case updateNumberDropdown False None p of
        Inl e \<Rightarrow> Inl e
      | Inr p1 \<Rightarrow>
          (case renew_numberChoice p1 of
             Inl e \<Rightarrow> Inl e
           | Inr p2 \<Rightarrow>
               if select_value (subject_select p2) = []
               then Inr (submit (p2\<lparr>class_filter_hidden := ''All''\<rparr>))
               else Inr p2))"

definition handleNumberChange :: "'a page_scheme \<Rightarrow> 'a page_scheme" where
  "handleNumberChange p =
     (if select_value (number_select p) = [] \<and> select_value (subject_select p) \<noteq> []
      then submit (p\<lparr>class_filter_hidden := ''All''\<rparr>)
      else applyClassFilter p)"

subsection \<open>Initialisation of \<^verbatim>\<open>static/notes-page.js\<close>\<close>

definition initializePage ::
    "jsnum \<Rightarrow> string list \<Rightarrow> string \<Rightarrow> 'a page_scheme \<Rightarrow> error + 'a page_scheme" where
  "initializePage initialPage classes selectedFilter p =
     (let p1 = p\<lparr>currentPage := initialPage, CLASSES := classes\<rparr>
      in case populateSubjects selectedFilter p1 of
           Inl e \<Rightarrow> Inl e
         | Inr p2 \<Rightarrow>
             (case updateNumberDropdown True (Some selectedFilter) p2 of
                Inl e \<Rightarrow> Inl e
              | Inr p3 \<Rightarrow>
                  Inr (p3\<lparr>subjectChoice := Some (options (subject_select p3)),
                          numberChoice := Some (options (number_select p3)),
                          listeners := listeners p3 @
                            [(''subject-select'', ''change''), (''number-select'', ''change''),
                             (''note-modal'', ''click''), (''document'', ''keydown'')]\<rparr>)))"

text \<open>
  The data attributes of the \<^verbatim>\<open>page-data\<close> element, \<open>None\<close> where the element has no such
  attribute. \<^verbatim>\<open>attribute || default\<close> takes the default for a missing and for an empty
  attribute.
\<close>

record page_data =
  data_page :: "string option"
  data_classes :: "string option"
  data_selected_filter :: "string option"

definition or_default :: "string option \<Rightarrow> string \<Rightarrow> string" where
  "or_default attribute d =
     (case attribute of None \<Rightarrow> d | Some v \<Rightarrow> if v = [] then d else v)"

text \<open>
  The \<^verbatim>\<open>DOMContentLoaded\<close> handler. \<^verbatim>\<open>JSON.parse\<close> is a parameter: it throws a
  \<^verbatim>\<open>SyntaxError\<close> or gives the array of strings that the attribute holds.
\<close>

definition DOMContentLoaded ::
    "(string \<Rightarrow> error + string list) \<Rightarrow> 'b page_data_scheme \<Rightarrow> 'a page_scheme
      \<Rightarrow> error + 'a page_scheme" where
  "DOMContentLoaded JSON_parse pageData p =
     (let initialPage = parseInt (or_default (data_page pageData) ''1'')
      in case JSON_parse (or_default (data_classes pageData) ''[]'') of
           Inl e \<Rightarrow> Inl e
         | Inr classes \<Rightarrow>
             let selectedFilter = or_default (data_selected_filter pageData) ''All''
             in initializePage initialPage classes selectedFilter p)"

subsection \<open>The version with a course index from the server\<close>

text \<open>
  The edit form of one note: its subject and number dropdowns and its hidden class field.
  The page adds the index globals, the dropdowns of the create form (which the script looks up
  and guards) and whether the \<^verbatim>\<open>note-modal\<close> element exists (guarded as well).
\<close>

record edit_modal =
  edit_subject_select :: select_el
  edit_number_select :: select_el
  edit_class_hidden :: string

record page_s = page +
  COURSES_DICT :: "string \<rightharpoonup> string list"
  SUBJECTS :: "string list"
  createSubjectChoice :: "(string \<times> string) list option"
  createNumberChoice :: "(string \<times> string) list option"
  create_subject_select :: "select_el option"
  create_number_select :: "select_el option"
  edit_modals :: "edit_modal list"
  note_modal :: bool

definition parseClasses_s :: "page_s \<Rightarrow> course_index" where
  "parseClasses_s p = \<lparr>subjects = SUBJECTS p, classesBySubject = COURSES_DICT p\<rparr>"

definition populateSubjects_s :: "string \<Rightarrow> page_s \<Rightarrow> page_s" where
  "populateSubjects_s currentFilter p =
     (let index = parseClasses_s p;
          currentSubject = filter_subject (Some currentFilter);
          subjectSelect = remove_all_but_first (subject_select p)
      in p\<lparr>subject_select := add_options currentSubject (subjects index) subjectSelect\<rparr>)"

text \<open>
  \<^verbatim>\<open>numbers\<close> is the array stored in \<^verbatim>\<open>COURSES_DICT\<close> itself, and \<^verbatim>\<open>sort\<close> works in place: the
  stored array is reordered too. Its entries are whatever strings the server sent, so the
  order is the engine's.
\<close>

definition updateNumberDropdown_s ::
    "array_sort \<Rightarrow> bool \<Rightarrow> string option \<Rightarrow> page_s \<Rightarrow> error + page_s" where
  "updateNumberDropdown_s array_sort preserveSelection currentFilter p =
     (let index = parseClasses_s p;
          selectedSubject = select_value (subject_select p);
          currentNumber = filter_number preserveSelection currentFilter;
          p1 = p\<lparr>number_select := single_option ''All Numbers''\<rparr>
      in if selectedSubject \<noteq> [] then
           (case get_property (classesBySubject index) selectedSubject of
              Undefined \<Rightarrow> Inr p1
            | Inherited \<Rightarrow> Inl TypeError
            | Arr numbers \<Rightarrow>
                let sortedNumbers = array_sort (\<lambda>a b. js_sub (parseInt a) (parseInt b)) numbers
                in Inr (p1\<lparr>number_select := add_options currentNumber sortedNumbers (number_select p1),
                           COURSES_DICT := (COURSES_DICT p1)(selectedSubject \<mapsto> sortedNumbers)\<rparr>))
         else Inr p1)"

definition handleSubjectChange_s :: "array_sort \<Rightarrow> page_s \<Rightarrow> error + page_s" where
  "handleSubjectChange_s array_sort p =
     (case updateNumberDropdown_s array_sort False None p of
        Inl e \<Rightarrow> Inl e
      | Inr p1 \<Rightarrow>
          (case renew_numberChoice p1 of
             Inl e \<Rightarrow> Inl e
           | Inr p2 \<Rightarrow>
               if select_value (subject_select p2) = []
               then Inr (submit (p2\<lparr>class_filter_hidden := ''All''\<rparr>))
               else Inr p2))"

definition initializeCreateModalDropdowns :: "page_s \<Rightarrow> page_s" where
  "initializeCreateModalDropdowns p =
     (case (create_subject_select p, create_number_select p) of
        (Some createSubjectSelect, Some createNumberSelect) \<Rightarrow>
          p\<lparr>createSubjectChoice := Some (options createSubjectSelect),
            createNumberChoice := Some (options createNumberSelect),
            listeners := listeners p @
              [(''create-subject-select'', ''change''), (''create-number-select'', ''change'')]\<rparr>
      | _ \<Rightarrow> p)"

text \<open>\<^verbatim>\<open>select.value = v\<close> selects the first option of that value, or none.\<close>

fun index_of :: "('a \<Rightarrow> bool) \<Rightarrow> 'a list \<Rightarrow> nat" where
  "index_of P [] = 0"
| "index_of P (x # xs) = (if P x then 0 else Suc (index_of P xs))"

definition set_value :: "string \<Rightarrow> select_el \<Rightarrow> select_el" where
  "set_value v sel = sel\<lparr>selectedIndex := index_of (\<lambda>opt. fst opt = v) (options sel)\<rparr>"

text \<open>
  One round of the loop of \<^verbatim>\<open>initializeEditModalDropdowns\<close>. The edit forms order the numbers
  with \<^verbatim>\<open>(a, b) => a - b\<close>, which converts whole strings to Numbers (fractions and exponents
  included); the comparison is the parameter \<open>subtract\<close>. This sort is in place as well, and
  its order the engine's.
\<close>

definition init_edit_modal ::
    "array_sort \<Rightarrow> (string \<Rightarrow> string \<Rightarrow> jsnum) \<Rightarrow> edit_modal
      \<Rightarrow> edit_modal list \<times> (string \<rightharpoonup> string list)
      \<Rightarrow> error + edit_modal list \<times> (string \<rightharpoonup> string list)" where
  "init_edit_modal array_sort subtract m state =
     (let before = fst state;
          dict = snd state;
          currentClassCode = edit_class_hidden m
      in case match_code currentClassCode of
           None \<Rightarrow> Inr (before @ [m], dict)
         | Some (currentSubject, currentNumber) \<Rightarrow>
             let select = set_value currentSubject (edit_subject_select m)
             in (case get_property dict currentSubject of
                   Inherited \<Rightarrow> Inl TypeError
                 | Undefined \<Rightarrow>
                     Inr (before @ [m\<lparr>edit_subject_select := select,
                                    edit_number_select := single_option ''Number''\<rparr>], dict)
                 | Arr numbers \<Rightarrow>
                     let sortedNumbers = array_sort subtract numbers
                     in Inr (before @ [m\<lparr>edit_subject_select := select,
                                       edit_number_select :=
                                         add_options currentNumber sortedNumbers (single_option ''Number'')\<rparr>],
                             dict(currentSubject \<mapsto> sortedNumbers))))"

definition initializeEditModalDropdowns ::
    "array_sort \<Rightarrow> (string \<Rightarrow> string \<Rightarrow> jsnum) \<Rightarrow> page_s \<Rightarrow> error + page_s" where
  "initializeEditModalDropdowns array_sort subtract p =
     (case forEach (init_edit_modal array_sort subtract) (edit_modals p) ([], COURSES_DICT p) of
        Inl e \<Rightarrow> Inl e
      | Inr (modals, dict) \<Rightarrow>
          Inr (p\<lparr>edit_modals := modals, COURSES_DICT := dict,
                 listeners := listeners p @
                   concat (map (\<lambda>m. [(''edit-subject-select'', ''change''),
                                      (''edit-number'', ''change'')]) modals)\<rparr>))"

definition initializePage_s ::
    "array_sort \<Rightarrow> (string \<Rightarrow> string \<Rightarrow> jsnum) \<Rightarrow> jsnum \<Rightarrow> string list
      \<Rightarrow> (string \<rightharpoonup> string list) \<Rightarrow> string list \<Rightarrow> string \<Rightarrow> page_s \<Rightarrow> error + page_s" where
  "initializePage_s array_sort subtract initialPage classes coursesDict subjectList selectedFilter
     p =
     (let p1 = p\<lparr>currentPage := initialPage, CLASSES := classes,
                 COURSES_DICT := coursesDict, SUBJECTS := subjectList\<rparr>;
          p2 = populateSubjects_s selectedFilter p1
      in case updateNumberDropdown_s array_sort True (Some selectedFilter) p2 of
           Inl e \<Rightarrow> Inl e
         | Inr p3 \<Rightarrow>
             let p4 = p3\<lparr>subjectChoice := Some (options (subject_select p3)),
                         numberChoice := Some (options (number_select p3)),
                         listeners := listeners p3 @
                           [(''subject-select'', ''change''), (''number-select'', ''change'')]\<rparr>
             in (case initializeEditModalDropdowns array_sort subtract
                        (initializeCreateModalDropdowns p4) of
                   Inl e \<Rightarrow> Inl e
                 | Inr p5 \<Rightarrow>
                     Inr (p5\<lparr>listeners := listeners p5 @
                               (if note_modal p5 then [(''note-modal'', ''click'')] else []) @
                               [(''document'', ''keydown'')]\<rparr>)))"

record page_data_s = page_data +
  data_courses_dict :: "string option"
  data_subjects :: "string option"

definition DOMContentLoaded_s ::
    "(string \<Rightarrow> error + string list) \<Rightarrow> (string \<Rightarrow> error + (string \<rightharpoonup> string list))
      \<Rightarrow> array_sort \<Rightarrow> (string \<Rightarrow> string \<Rightarrow> jsnum) \<Rightarrow> page_data_s \<Rightarrow> page_s
      \<Rightarrow> error + page_s" where
  "DOMContentLoaded_s JSON_parse JSON_parse_object array_sort subtract pageData p =
     (let initialPage = parseInt (or_default (data_page pageData) ''1'')
      in case JSON_parse (or_default (data_classes pageData) ''[]'') of
           Inl e \<Rightarrow> Inl e
         | Inr classes \<Rightarrow>
             (case JSON_parse_object (or_default (data_courses_dict pageData) ''{}'') of
                Inl e \<Rightarrow> Inl e
              | Inr coursesDict \<Rightarrow>
                  (case JSON_parse (or_default (data_subjects pageData) ''[]'') of
                     Inl e \<Rightarrow> Inl e
                   | Inr subjectList \<Rightarrow>
                       let selectedFilter = or_default (data_selected_filter pageData) ''All''
                       in initializePage_s array_sort subtract initialPage classes coursesDict
                            subjectList selectedFilter p)))"

subsection \<open>Events\<close>

text \<open>
  What can happen on a loaded page: a call of one of the filter functions, the user picking the
  option of some index in a dropdown (which fires the change handler), and a click on the
  load-more button together with what the network answers.
\<close>

datatype event =
    Populate string
  | Update bool "string option"
  | Apply
  | Subject_changed nat
  | Number_changed nat
  | Load_more fetch_outcome

definition pick_option :: "nat \<Rightarrow> select_el \<Rightarrow> select_el" where
  "pick_option i sel = (if i < length (options sel) then sel\<lparr>selectedIndex := i\<rparr> else sel)"

fun step :: "event \<Rightarrow> page \<Rightarrow> error + page" where
  "step (Populate currentFilter) p = populateSubjects currentFilter p"
| "step (Update preserveSelection currentFilter) p =
     updateNumberDropdown preserveSelection currentFilter p"
| "step Apply p = Inr (applyClassFilter p)"
| "step (Subject_changed i) p =
     handleSubjectChange (p\<lparr>subject_select := pick_option i (subject_select p)\<rparr>)"
| "step (Number_changed i) p =
     Inr (handleNumberChange (p\<lparr>number_select := pick_option i (number_select p)\<rparr>))"
| "step (Load_more outcome) p = Inr (loadMore outcome p)"

fun step_s :: "array_sort \<Rightarrow> event \<Rightarrow> page_s \<Rightarrow> error + page_s" where
  "step_s array_sort (Populate currentFilter) p = Inr (populateSubjects_s currentFilter p)"
| "step_s array_sort (Update preserveSelection currentFilter) p =
     updateNumberDropdown_s array_sort preserveSelection currentFilter p"
| "step_s array_sort Apply p = Inr (applyClassFilter p)"
| "step_s array_sort (Subject_changed i) p =
     handleSubjectChange_s array_sort (p\<lparr>subject_select := pick_option i (subject_select p)\<rparr>)"
| "step_s array_sort (Number_changed i) p =
     Inr (handleNumberChange (p\<lparr>number_select := pick_option i (number_select p)\<rparr>))"
| "step_s array_sort (Load_more outcome) p = Inr (loadMore outcome p)"

subsection \<open>The index in terms of the input list\<close>

text \<open>
  The matches of a list of codes, in input order, and the numbers among them that belong to
  one subject.
\<close>

definition entries :: "string list \<Rightarrow> (string \<times> string) list" where
  "entries classes = List.map_filter match_code classes"

definition numbers_of :: "string list \<Rightarrow> string \<Rightarrow> string list" where
  "numbers_of classes subject = map snd (filter (\<lambda>e. fst e = subject) (entries classes))"

subsection \<open>Example pages\<close>

text \<open>
  A page as it is before the script runs, with the two dropdowns holding their first options
  only, and pages with a catalogue and a selected subject.
\<close>

definition template_page :: page where
  "template_page =
     \<lparr>currentPage = Num 1, CLASSES = [], subjectChoice = None, numberChoice = None,
      subject_select = single_option ''All Subjects'',
      number_select = single_option ''All Numbers'',
      class_filter_hidden = ''All'', course_filter_form = [], filter_form = [],
      notes_container = [], load_more = Some [], requests = [], console_error = [],
      listeners = []\<rparr>"

definition cs_page :: page where
  "cs_page =
     template_page
       \<lparr>CLASSES := [''CS9'', ''MATH241'', ''CS124'', ''cs50'', ''CS10''],
        subject_select :=
          \<lparr>options = [([], ''All Subjects''), (''CS'', ''CS''), (''MATH'', ''MATH'')],
           selectedIndex = 1\<rparr>,
        numberChoice := Some [([], ''All Numbers'')]\<rparr>"

definition number_only_page :: page where
  "number_only_page =
     template_page
       \<lparr>number_select :=
          \<lparr>options = [([], ''All Numbers''), (''124'', ''124'')], selectedIndex = 1\<rparr>\<rparr>"

definition template_page_s :: page_s where
  "template_page_s =
     \<lparr>currentPage = Num 1, CLASSES = [], subjectChoice = None, numberChoice = None,
      subject_select = single_option ''All Subjects'',
      number_select = single_option ''All Numbers'',
      class_filter_hidden = ''All'', course_filter_form = [], filter_form = [],
      notes_container = [], load_more = Some [], requests = [], console_error = [],
      listeners = [],
      COURSES_DICT = Map.empty, SUBJECTS = [], createSubjectChoice = None,
      createNumberChoice = None, create_subject_select = None, create_number_select = None,
      edit_modals = [], note_modal = True\<rparr>"

definition cs_page_s :: page_s where
  "cs_page_s =
     template_page_s
       \<lparr>subject_select :=
          \<lparr>options = [([], ''All Subjects''), (''CS'', ''CS'')], selectedIndex = 1\<rparr>,
        numberChoice := Some [([], ''All Numbers'')],
        COURSES_DICT := [''CS'' \<mapsto> [''225'', ''124'']],
        SUBJECTS := [''CS'']\<rparr>"

definition constructor_page :: page where
  "constructor_page =
     template_page
       \<lparr>subject_select :=
          \<lparr>options = [([], ''All Subjects''), (''constructor'', ''constructor'')],
           selectedIndex = 1\<rparr>\<rparr>"

definition constructor_page_s :: page_s where
  "constructor_page_s =
     template_page_s
       \<lparr>subject_select :=
          \<lparr>options = [([], ''All Subjects''), (''constructor'', ''constructor'')],
           selectedIndex = 1\<rparr>,
        SUBJECTS := [''constructor'']\<rparr>"

definition physics_page_s :: page_s where
  "physics_page_s =
     cs_page_s
       \<lparr>subject_select :=
          \<lparr>options = [([], ''All Subjects''), (''CS'', ''CS''), (''PHYS'', ''PHYS'')],
           selectedIndex = 2\<rparr>,
        SUBJECTS := [''CS'', ''PHYS'']\<rparr>"

definition big_numbers_page :: page where
  "big_numbers_page =
     template_page
       \<lparr>CLASSES := [''CS9007199254740993'', ''CS9007199254740992''],
        subject_select :=
          \<lparr>options = [([], ''All Subjects''), (''CS'', ''CS'')], selectedIndex = 1\<rparr>\<rparr>"

definition last_page :: page where
  "last_page = template_page\<lparr>currentPage := Num 9007199254740992\<rparr>"

definition nan_page :: page where
  "nan_page = template_page\<lparr>currentPage := NaN\<rparr>"

text \<open>
  What a call leaves to be seen: the numbers offered in the number dropdown after its first
  option, and the numbers the catalogue stores for a subject.
\<close>

definition presented_numbers :: "error + 'a page_scheme \<Rightarrow> string list option" where
  "presented_numbers result =
     (case result of
        Inl e \<Rightarrow> None
      | Inr p \<Rightarrow> Some (map fst (drop 1 (options (number_select p)))))"

definition stored_numbers :: "string \<Rightarrow> error + page_s \<Rightarrow> string list option" where
  "stored_numbers subject result =
     (case result of Inl e \<Rightarrow> None | Inr p \<Rightarrow> COURSES_DICT p subject)"

text \<open>
  A \<^verbatim>\<open>JSON.parse\<close> cut down to the two default texts, and page data without any attribute.
\<close>

definition parse_default_array :: "string \<Rightarrow> error + string list" where
  "parse_default_array text = (if text = ''[]'' then Inr [] else Inl SyntaxError)"

definition parse_default_object :: "string \<Rightarrow> error + (string \<rightharpoonup> string list)" where
  "parse_default_object text = (if text = ''{}'' then Inr Map.empty else Inl SyntaxError)"

definition no_page_data :: page_data where
  "no_page_data = \<lparr>data_page = None, data_classes = None, data_selected_filter = None\<rparr>"

definition no_page_data_s :: page_data_s where
  "no_page_data_s =
     \<lparr>data_page = None, data_classes = None, data_selected_filter = None,
      data_courses_dict = None, data_subjects = None\<rparr>"

subsection \<open>Properties of the decomposition\<close>

lemma is_upper_not_digit: "is_upper c \<Longrightarrow> \<not> is_digit c"
  by (auto simp: is_upper_def is_digit_def less_eq_char_def)

lemma takeWhile_upper_split:
  assumes "list_all is_upper a" and "b \<noteq> []" and "list_all is_digit b"
  shows "takeWhile is_upper (a @ b) = a" and "dropWhile is_upper (a @ b) = b"
proof -
  from assms(2) obtain x xs where b: "b = x # xs" by (cases b) auto
  with assms(3) have nx: "\<not> is_upper x"
    using is_upper_not_digit by auto
  from assms(1) have all: "\<forall>c \<in> set a. is_upper c"
    by (simp add: list_all_iff)
  show "takeWhile is_upper (a @ b) = a"
    using all nx b by (simp add: takeWhile_append2)
  show "dropWhile is_upper (a @ b) = b"
    using all nx b by (simp add: dropWhile_append2)
qed

lemma match_code_iff:
  "match_code cls = Some (a, b) \<longleftrightarrow>
     cls = a @ b \<and> a \<noteq> [] \<and> list_all is_upper a \<and> b \<noteq> [] \<and> list_all is_digit b"
proof
  assume "match_code cls = Some (a, b)"
  then have a: "a = takeWhile is_upper cls" and b: "b = dropWhile is_upper cls"
    and ne: "a \<noteq> []" "b \<noteq> []" and d: "list_all is_digit b"
    by (auto simp: match_code_def Let_def split: if_splits)
  have "list_all is_upper a"
    unfolding a list_all_iff by (auto dest: set_takeWhileD)
  moreover have "cls = a @ b"
    unfolding a b by simp
  ultimately show "cls = a @ b \<and> a \<noteq> [] \<and> list_all is_upper a \<and> b \<noteq> [] \<and> list_all is_digit b"
    using ne d by simp
next
  assume h: "cls = a @ b \<and> a \<noteq> [] \<and> list_all is_upper a \<and> b \<noteq> [] \<and> list_all is_digit b"
  then have "takeWhile is_upper cls = a" "dropWhile is_upper cls = b"
    using takeWhile_upper_split [of a b] by simp_all
  with h show "match_code cls = Some (a, b)"
    by (simp add: match_code_def)
qed

lemma is_course_code_iff:
  "is_course_code code \<longleftrightarrow>
     (\<exists>a b. code = a @ b \<and> a \<noteq> [] \<and> list_all is_upper a \<and> b \<noteq> [] \<and> list_all is_digit b)"
proof
  assume "is_course_code code"
  then obtain n where n: "1 \<le> n" "n < length code"
    and u: "list_all is_upper (take n code)" and d: "list_all is_digit (drop n code)"
    by (auto simp: is_course_code_def list_ex_iff)
  have "code = take n code @ drop n code" by simp
  moreover have "take n code \<noteq> []" "drop n code \<noteq> []" using n by auto
  ultimately show "\<exists>a b. code = a @ b \<and> a \<noteq> [] \<and> list_all is_upper a \<and> b \<noteq> [] \<and> list_all is_digit b"
    using u d by blast
next
  assume "\<exists>a b. code = a @ b \<and> a \<noteq> [] \<and> list_all is_upper a \<and> b \<noteq> [] \<and> list_all is_digit b"
  then obtain a b where ab: "code = a @ b" "a \<noteq> []" "list_all is_upper a" "b \<noteq> []" "list_all is_digit b"
    by blast
  then have "1 \<le> length a" "length a < length code"
    by (auto simp: Suc_le_eq)
  moreover have "take (length a) code = a" "drop (length a) code = b"
    using ab(1) by simp_all
  ultimately show "is_course_code code"
    using ab unfolding is_course_code_def list_ex_iff by force
qed

text \<open>
  Claim C1. Every string of the language \<^verbatim>\<open>^[A-Z]+[0-9]+$\<close> is matched by the parsing
  expression; the two groups concatenate to the string again, and they are the only way to
  split it into capital letters followed by digits.
\<close>

theorem decompose_round_trip_unique:
  assumes "is_course_code code"
  shows "\<exists>subject number.
           match_code code = Some (subject, number) \<and> subject @ number = code \<and>
           (\<forall>a b. a @ b = code \<and> a \<noteq> [] \<and> list_all is_upper a \<and> b \<noteq> [] \<and> list_all is_digit b
                  \<longrightarrow> a = subject \<and> b = number)"
proof -
  from assms obtain s n where sn: "code = s @ n" "s \<noteq> []" "list_all is_upper s"
      "n \<noteq> []" "list_all is_digit n"
    unfolding is_course_code_iff by blast
  then have m: "match_code code = Some (s, n)"
    by (simp add: match_code_iff)
  have "a = s \<and> b = n"
    if "a @ b = code \<and> a \<noteq> [] \<and> list_all is_upper a \<and> b \<noteq> [] \<and> list_all is_digit b" for a b
  proof -
    from that have "match_code code = Some (a, b)"
      by (simp add: match_code_iff)
    with m show ?thesis by simp
  qed
  with m sn(1) show ?thesis by blast
qed

theorem decompose_round_trip_unique_witness:
  "is_course_code ''CS124'' \<and> match_code ''CS124'' = Some (''CS'', ''124'')"
proof -
  have c: "is_course_code ''CS124''"
    by (simp add: is_course_code_def is_upper_def is_digit_def less_eq_char_def upt_rec)
  from decompose_round_trip_unique [OF c] obtain s n where
    m: "match_code ''CS124'' = Some (s, n)" and
    u: "\<forall>a b. a @ b = ''CS124'' \<and> a \<noteq> [] \<and> list_all is_upper a \<and> b \<noteq> [] \<and> list_all is_digit b
          \<longrightarrow> a = s \<and> b = n"
    by blast
  have "''CS'' @ ''124'' = ''CS124'' \<and> ''CS'' \<noteq> [] \<and> list_all is_upper ''CS'' \<and> ''124'' \<noteq> [] \<and>
        list_all is_digit ''124''"
    by (simp add: is_upper_def is_digit_def less_eq_char_def)
  with u have "''CS'' = s \<and> ''124'' = n" by blast
  with m c show ?thesis by simp
qed

subsection \<open>Numbers and sorting\<close>

lemma bit_length_lower: "0 < n \<Longrightarrow> 2 ^ (bit_length n - 1) \<le> n"
proof (induction n rule: bit_length.induct)
  case (1 n)
  show ?case
  proof (cases "n div 2 \<le> 0")
    case True
    with "1.prems" have "n = 1" by linarith
    then show ?thesis
      by (simp add: bit_length.simps [of 1] bit_length.simps [of 0])
  next
    case False
    then have pos: "0 < n div 2" by simp
    with "1.IH" "1.prems" have ih: "2 ^ (bit_length (n div 2) - 1) \<le> n div 2" by simp
    from pos have "bit_length (n div 2) = Suc (bit_length (n div 2 div 2))"
      by (subst bit_length.simps) simp
    then have "(2::int) ^ bit_length (n div 2) = 2 * 2 ^ (bit_length (n div 2) - 1)"
      by simp
    also have "\<dots> \<le> 2 * (n div 2)" using ih by simp
    also have "\<dots> \<le> n" by simp
    finally have "(2::int) ^ bit_length (n div 2) \<le> n" .
    moreover have "bit_length n = Suc (bit_length (n div 2))"
      using "1.prems" by (subst bit_length.simps) simp
    ultimately show ?thesis by simp
  qed
qed

lemma to_double_large:
  assumes "\<not> \<bar>i\<bar> < 2 ^ 53"
  shows "\<exists>v. 0 < v \<and> to_double i =
           (if 2 ^ 1024 \<le> v then (if i < 0 then NegInf else PosInf)
            else Num (if i < 0 then - v else v))"
proof -
  define m where "m = \<bar>i\<bar>"
  define e where "e = bit_length m - 53"
  define q where "q = m div 2 ^ e"
  define q' where
    "q' = (if 2 ^ (e - 1) < m mod 2 ^ e \<or> (m mod 2 ^ e = 2 ^ (e - 1) \<and> odd q) then q + 1 else q)"
  define v where "v = q' * 2 ^ e"
  from assms have m: "2 ^ 53 \<le> m" by (simp add: m_def)
  then have mpos: "0 < m" by (smt (verit) zero_less_power)
  have "(2::int) ^ e \<le> 2 ^ (bit_length m - 1)"
    unfolding e_def by (rule power_increasing) auto
  also have "\<dots> \<le> m" using bit_length_lower [OF mpos] .
  finally have "2 ^ e \<le> m" .
  then have "0 < q"
    unfolding q_def using pos_imp_zdiv_pos_iff [of "2 ^ e" m] by simp
  then have "0 < q'" by (simp add: q'_def)
  then have "0 < v" by (simp add: v_def)
  moreover have "to_double i =
      (if 2 ^ 1024 \<le> v then (if i < 0 then NegInf else PosInf)
       else Num (if i < 0 then - v else v))"
    using assms unfolding to_double_def Let_def v_def q'_def q_def e_def m_def
    by (simp del: abs_less_iff)
  ultimately show ?thesis by blast
qed

lemma positive_to_double: "positive (to_double i) = (0 < i)"
proof (cases "\<bar>i\<bar> < 2 ^ 53")
  case True
  then show ?thesis by (simp add: to_double_def)
next
  case False
  from to_double_large [OF False] obtain v where v: "0 < v"
    and eq: "to_double i =
      (if 2 ^ 1024 \<le> v then (if i < 0 then NegInf else PosInf)
       else Num (if i < 0 then - v else v))"
    by blast
  from False have "i \<noteq> 0" by auto
  with v show ?thesis unfolding eq by auto
qed

lemma to_double_not_NaN [simp]: "to_double i \<noteq> NaN"
  by (simp add: to_double_def Let_def)

lemma positive_js_sub:
  "x \<noteq> NaN \<Longrightarrow> y \<noteq> NaN \<Longrightarrow> positive (js_sub x y) = (\<not> js_le x y)"
  by (cases x; cases y) (auto simp: js_sub_def positive_to_double)

lemma negative_to_double: "negative (to_double i) = (i < 0)"
proof (cases "\<bar>i\<bar> < 2 ^ 53")
  case True
  then show ?thesis by (simp add: to_double_def)
next
  case False
  from to_double_large [OF False] obtain v where v: "0 < v"
    and eq: "to_double i =
      (if 2 ^ 1024 \<le> v then (if i < 0 then NegInf else PosInf)
       else Num (if i < 0 then - v else v))"
    by blast
  from False have "i \<noteq> 0" by auto
  with v show ?thesis unfolding eq by auto
qed

lemma negative_js_sub:
  "x \<noteq> NaN \<Longrightarrow> y \<noteq> NaN \<Longrightarrow> negative (js_sub x y) = (\<not> js_le y x)"
  by (cases x; cases y) (auto simp: js_sub_def negative_to_double)

lemma js_le_total: "x \<noteq> NaN \<Longrightarrow> y \<noteq> NaN \<Longrightarrow> js_le x y \<or> js_le y x"
  by (cases x; cases y) auto

lemma js_le_refl: "x \<noteq> NaN \<Longrightarrow> js_le x x"
  by (cases x) auto

lemma js_le_trans: "js_le x y \<Longrightarrow> js_le y z \<Longrightarrow> js_le x z"
  by (cases x; cases y; cases z) auto

lemma mset_insert_sorted: "mset (insert_sorted c x ys) = add_mset x (mset ys)"
  by (induction ys) auto

lemma mset_sort_with: "mset (sort_with c xs) = mset xs"
  by (induction xs) (auto simp: sort_with_def mset_insert_sorted)

lemma set_sort_with: "set (sort_with c xs) = set xs"
  using mset_sort_with [of c xs] by (metis set_mset_mset)

lemma sorted_insert_sorted:
  assumes tot: "\<And>a b. a \<in> S \<Longrightarrow> b \<in> S \<Longrightarrow> positive (c a b) \<Longrightarrow> le b a"
    and le: "\<And>a b. a \<in> S \<Longrightarrow> b \<in> S \<Longrightarrow> \<not> positive (c a b) \<Longrightarrow> le a b"
    and trans: "\<And>a b d. le a b \<Longrightarrow> le b d \<Longrightarrow> le a d"
  shows "x \<in> S \<Longrightarrow> set ys \<subseteq> S \<Longrightarrow> sorted_wrt le ys \<Longrightarrow> sorted_wrt le (insert_sorted c x ys)"
proof (induction ys)
  case Nil
  then show ?case by simp
next
  case (Cons y ys)
  show ?case
  proof (cases "positive (c x y)")
    case True
    then have yx: "le y x" using tot Cons.prems by simp
    have "set (insert_sorted c x ys) = insert x (set ys)"
      using mset_insert_sorted [of c x ys] by (metis set_mset_add_mset_insert set_mset_mset)
    with Cons True yx show ?thesis by auto
  next
    case False
    then have "le x y" using le Cons.prems by simp
    with Cons.prems False show ?thesis
      by (auto intro: trans)
  qed
qed

lemma sorted_sort_with:
  assumes tot: "\<And>a b. a \<in> S \<Longrightarrow> b \<in> S \<Longrightarrow> positive (c a b) \<Longrightarrow> le b a"
    and le: "\<And>a b. a \<in> S \<Longrightarrow> b \<in> S \<Longrightarrow> \<not> positive (c a b) \<Longrightarrow> le a b"
    and trans: "\<And>a b d. le a b \<Longrightarrow> le b d \<Longrightarrow> le a d"
  shows "set xs \<subseteq> S \<Longrightarrow> sorted_wrt le (sort_with c xs)"
proof (induction xs)
  case Nil
  then show ?case by (simp add: sort_with_def)
next
  case (Cons x xs)
  then have "sorted_wrt le (sort_with c xs)" by simp
  moreover have "set (sort_with c xs) \<subseteq> S" using Cons.prems by (simp add: set_sort_with)
  ultimately have "sorted_wrt le (insert_sorted c x (sort_with c xs))"
    using sorted_insert_sorted [of S c le x "sort_with c xs"] tot le trans Cons.prems
    by auto
  then show ?case by (simp add: sort_with_def)
qed

lemma filter_insert_sorted:
  assumes "\<And>y. y \<in> set ys \<Longrightarrow> P x \<Longrightarrow> P y \<Longrightarrow> \<not> positive (c x y)"
  shows "filter P (insert_sorted c x ys) = (if P x then x # filter P ys else filter P ys)"
  using assms by (induction ys) auto

lemma filter_sort_with:
  assumes "\<And>x y. x \<in> set xs \<Longrightarrow> y \<in> set xs \<Longrightarrow> P x \<Longrightarrow> P y \<Longrightarrow> \<not> positive (c x y)"
  shows "filter P (sort_with c xs) = filter P xs"
  using assms
proof (induction xs)
  case Nil
  then show ?case by (simp add: sort_with_def)
next
  case (Cons x xs)
  have "filter P (sort_with c xs) = filter P xs"
    using Cons.prems by (intro Cons.IH) auto
  moreover have "filter P (insert_sorted c x (sort_with c xs)) =
      (if P x then x # filter P (sort_with c xs) else filter P (sort_with c xs))"
    using Cons.prems by (intro filter_insert_sorted) (auto simp: set_sort_with)
  ultimately show ?case by (simp add: sort_with_def)
qed

lemma conforming_sort_with: "conforming sort_with"
  by (simp add: conforming_def mset_sort_with)

lemma digit_not_space: "is_digit c \<Longrightarrow> \<not> is_white_space c"
  by (auto simp: is_digit_def is_white_space_def less_eq_char_def)

lemma radix_digit_10: "is_digit c \<Longrightarrow> radix_digit 10 c = Some (int (of_char c) - 48)"
  by (auto simp: radix_digit_def is_digit_def less_eq_char_def)

lemma radix_digit_10_range:
  "is_digit c \<Longrightarrow> 0 \<le> int (of_char c) - 48 \<and> int (of_char c) - 48 \<le> 9"
  by (auto simp: is_digit_def less_eq_char_def)

lemma digit_chars: "is_digit c \<Longrightarrow> c \<noteq> CHR ''-'' \<and> c \<noteq> CHR ''+'' \<and> c \<noteq> CHR ''x'' \<and> c \<noteq> CHR ''X''"
  by (auto simp: is_digit_def less_eq_char_def)

lemma takeWhile_all: "list_all P xs \<Longrightarrow> takeWhile P xs = xs"
  by (induction xs) auto

lemma parseInt_digits:
  assumes "s \<noteq> []" and "list_all is_digit s"
  shows "parseInt s = to_double (radix_value 10 s)"
proof -
  from assms obtain c cs where s: "s = c # cs" by (cases s) auto
  with assms have c: "is_digit c" and cs: "list_all is_digit cs" by auto
  have ws: "dropWhile is_white_space s = s"
    using c s digit_not_space by simp
  have sign: "take 1 s \<noteq> ''-''" "take 1 s \<noteq> ''+''"
    using c s digit_chars by auto
  have hex: "take 2 s \<noteq> ''0x''" "take 2 s \<noteq> ''0X''"
  proof -
    show "take 2 s \<noteq> ''0x''"
    proof (cases cs)
      case Nil
      then show ?thesis using s by simp
    next
      case (Cons d ds)
      with cs have "is_digit d" by simp
      then show ?thesis using s Cons digit_chars by auto
    qed
    show "take 2 s \<noteq> ''0X''"
    proof (cases cs)
      case Nil
      then show ?thesis using s by simp
    next
      case (Cons d ds)
      with cs have "is_digit d" by simp
      then show ?thesis using s Cons digit_chars by auto
    qed
  qed
  have "list_all (\<lambda>c. radix_digit 10 c \<noteq> None) s"
    using assms(2) by (simp add: list_all_iff radix_digit_10)
  then have tw: "takeWhile (\<lambda>c. radix_digit 10 c \<noteq> None) s = s"
    by (rule takeWhile_all)
  show ?thesis
    using sign hex assms(1) by (simp add: parseInt_def Let_def ws tw del: not_None_eq)
qed

lemma radix_value_10_bounds_aux:
  "list_all is_digit s \<Longrightarrow> 0 \<le> acc \<Longrightarrow>
     0 \<le> foldl (\<lambda>acc c. acc * 10 + (case radix_digit 10 c of None \<Rightarrow> 0 | Some d \<Rightarrow> d)) acc s \<and>
     foldl (\<lambda>acc c. acc * 10 + (case radix_digit 10 c of None \<Rightarrow> 0 | Some d \<Rightarrow> d)) acc s
       < (acc + 1) * 10 ^ length s"
proof (induction s arbitrary: acc)
  case Nil
  then show ?case by simp
next
  case (Cons c s)
  then have c: "is_digit c" and s: "list_all is_digit s" by auto
  define acc' where "acc' = acc * 10 + (int (of_char c) - 48)"
  from radix_digit_10_range [OF c] Cons.prems(2) have acc': "0 \<le> acc'" "acc' + 1 \<le> (acc + 1) * 10"
    by (auto simp: acc'_def)
  from Cons.IH [OF s acc'(1)] have
    ih: "0 \<le> foldl (\<lambda>acc c. acc * 10 + (case radix_digit 10 c of None \<Rightarrow> 0 | Some d \<Rightarrow> d)) acc' s"
        "foldl (\<lambda>acc c. acc * 10 + (case radix_digit 10 c of None \<Rightarrow> 0 | Some d \<Rightarrow> d)) acc' s
           < (acc' + 1) * 10 ^ length s"
    by auto
  have "(acc' + 1) * 10 ^ length s \<le> (acc + 1) * 10 * 10 ^ length s"
    using acc'(2) by (intro mult_right_mono) auto
  with ih(2) have lt:
    "foldl (\<lambda>acc c. acc * 10 + (case radix_digit 10 c of None \<Rightarrow> 0 | Some d \<Rightarrow> d)) acc' s
       < (acc + 1) * 10 * 10 ^ length s"
    by (rule less_le_trans)
  show ?case
    using ih(1) lt [unfolded mult.assoc]
    by (simp add: radix_digit_10 [OF c] acc'_def [symmetric])
qed

lemma radix_value_10_bounds:
  "list_all is_digit s \<Longrightarrow> 0 \<le> radix_value 10 s \<and> radix_value 10 s < 10 ^ length s"
  using radix_value_10_bounds_aux [of s 0] by (simp add: radix_value_def)

lemma parseInt_exact:
  assumes "s \<noteq> []" and "list_all is_digit s" and "radix_value 10 s < 2 ^ 53"
  shows "parseInt s = Num (radix_value 10 s)"
proof -
  from radix_value_10_bounds [OF assms(2)] have "0 \<le> radix_value 10 s" by simp
  with assms(3) have "\<bar>radix_value 10 s\<bar> < 2 ^ 53" by simp
  then show ?thesis
    unfolding parseInt_digits [OF assms(1,2)] by (simp add: to_double_def)
qed

lemma parseInt_exact_15:
  assumes "s \<noteq> []" and "list_all is_digit s" and "length s \<le> 15"
  shows "parseInt s = Num (radix_value 10 s)"
proof -
  have "radix_value 10 s < 10 ^ length s"
    using radix_value_10_bounds [OF assms(2)] by simp
  also have "(10::int) ^ length s \<le> 10 ^ 15"
    using assms(3) by (intro power_increasing) auto
  also have "(10::int) ^ 15 < 2 ^ 53" by simp
  finally show ?thesis using parseInt_exact [OF assms(1,2)] by simp
qed

lemma parseInt_digits_not_NaN:
  "s \<noteq> [] \<Longrightarrow> list_all is_digit s \<Longrightarrow> parseInt s \<noteq> NaN"
  by (simp add: parseInt_digits)

lemma sorted_parsed:
  assumes "\<forall>n \<in> set numbers. parseInt n \<noteq> NaN"
  shows "sorted_wrt (\<lambda>a b. js_le (parseInt a) (parseInt b))
           (sort_with (\<lambda>a b. js_sub (parseInt a) (parseInt b)) numbers)"
proof (rule sorted_sort_with [where S = "{n. parseInt n \<noteq> NaN}"])
  fix a b assume "a \<in> {n. parseInt n \<noteq> NaN}" "b \<in> {n. parseInt n \<noteq> NaN}"
  then have nn: "parseInt a \<noteq> NaN" "parseInt b \<noteq> NaN"
    by simp_all
  show "positive (js_sub (parseInt a) (parseInt b)) \<Longrightarrow> js_le (parseInt b) (parseInt a)"
    using nn positive_js_sub js_le_total by blast
  show "\<not> positive (js_sub (parseInt a) (parseInt b)) \<Longrightarrow> js_le (parseInt a) (parseInt b)"
    using nn positive_js_sub by blast
next
  fix a b d
  show "js_le (parseInt a) (parseInt b) \<Longrightarrow> js_le (parseInt b) (parseInt d) \<Longrightarrow>
        js_le (parseInt a) (parseInt d)"
    by (rule js_le_trans)
next
  show "set numbers \<subseteq> {n. parseInt n \<noteq> NaN}"
    using assms by auto
qed

lemma sorted_numbers:
  assumes "\<forall>n \<in> set numbers. n \<noteq> [] \<and> list_all is_digit n"
  shows "sorted_wrt (\<lambda>a b. js_le (parseInt a) (parseInt b))
           (sort_with (\<lambda>a b. js_sub (parseInt a) (parseInt b)) numbers)"
  using assms by (intro sorted_parsed) (simp add: parseInt_digits_not_NaN)

text \<open>The sort is stable: entries with the same Number keep their order.\<close>

lemma stable_parsed:
  assumes "\<forall>n \<in> set numbers. parseInt n \<noteq> NaN"
  shows "filter (\<lambda>n. parseInt n = k)
           (sort_with (\<lambda>a b. js_sub (parseInt a) (parseInt b)) numbers) =
         filter (\<lambda>n. parseInt n = k) numbers"
proof (rule filter_sort_with)
  fix x y
  assume "x \<in> set numbers" "y \<in> set numbers" "parseInt x = k" "parseInt y = k"
  with assms have "parseInt x \<noteq> NaN" "parseInt y = parseInt x" by auto
  then show "\<not> positive (js_sub (parseInt x) (parseInt y))"
    by (simp add: positive_js_sub js_le_refl)
qed

text \<open>
  The comparison of \<^verbatim>\<open>updateNumberDropdown\<close> is consistent on entries that all parse to a
  Number, the digit strings of matches among them, so every engine sorts them as \<open>sort_with\<close>
  does.
\<close>

lemma consistent_parsed:
  assumes "\<forall>n \<in> set numbers. parseInt n \<noteq> NaN"
  shows "consistent (\<lambda>a b. js_sub (parseInt a) (parseInt b)) numbers"
proof -
  have p: "positive (js_sub (parseInt a) (parseInt b)) = (\<not> js_le (parseInt a) (parseInt b))"
    and n: "negative (js_sub (parseInt a) (parseInt b)) = (\<not> js_le (parseInt b) (parseInt a))"
    if "a \<in> set numbers" "b \<in> set numbers" for a b
    using that assms by (simp_all add: positive_js_sub negative_js_sub)
  have r: "js_le (parseInt a) (parseInt a)" if "a \<in> set numbers" for a
    using that assms by (simp add: js_le_refl)
  have t: "js_le (parseInt a) (parseInt b) \<or> js_le (parseInt b) (parseInt a)"
    if "a \<in> set numbers" "b \<in> set numbers" for a b
    using that assms by (simp add: js_le_total)
  show ?thesis
    unfolding consistent_def Let_def
  proof (intro conjI ballI impI)
    fix a assume "a \<in> set numbers"
    then show "\<not> negative (js_sub (parseInt a) (parseInt a))"
      and "\<not> positive (js_sub (parseInt a) (parseInt a))"
      by (simp_all add: p n r)
  next
    fix a b
    assume "a \<in> set numbers" "b \<in> set numbers"
      and "\<not> negative (js_sub (parseInt a) (parseInt b)) \<and>
           \<not> positive (js_sub (parseInt a) (parseInt b))"
    then show "\<not> negative (js_sub (parseInt b) (parseInt a))"
      and "\<not> positive (js_sub (parseInt b) (parseInt a))"
      by (simp_all add: p n)
  next
    fix a b c
    assume m: "a \<in> set numbers" "b \<in> set numbers" "c \<in> set numbers"
    {
      assume "(\<not> negative (js_sub (parseInt a) (parseInt b)) \<and>
               \<not> positive (js_sub (parseInt a) (parseInt b))) \<and>
              \<not> negative (js_sub (parseInt b) (parseInt c)) \<and>
              \<not> positive (js_sub (parseInt b) (parseInt c))"
      with m have "js_le (parseInt a) (parseInt b)" "js_le (parseInt b) (parseInt a)"
        "js_le (parseInt b) (parseInt c)" "js_le (parseInt c) (parseInt b)"
        by (simp_all add: p n)
      then have "js_le (parseInt a) (parseInt c)" "js_le (parseInt c) (parseInt a)"
        by (blast intro: js_le_trans)+
      with m show "\<not> negative (js_sub (parseInt a) (parseInt c))"
        and "\<not> positive (js_sub (parseInt a) (parseInt c))"
        by (simp_all add: p n)
    }
    {
      assume "negative (js_sub (parseInt a) (parseInt b)) \<and>
              negative (js_sub (parseInt b) (parseInt c))"
      with m have "\<not> js_le (parseInt b) (parseInt a)" "\<not> js_le (parseInt c) (parseInt b)"
        by (simp_all add: p n)
      with t m have "\<not> js_le (parseInt c) (parseInt a)"
        by (blast intro: js_le_trans)
      with m show "negative (js_sub (parseInt a) (parseInt c))"
        by (simp add: n)
    }
    {
      assume "positive (js_sub (parseInt a) (parseInt b)) \<and>
              positive (js_sub (parseInt b) (parseInt c))"
      with m have "\<not> js_le (parseInt a) (parseInt b)" "\<not> js_le (parseInt b) (parseInt c)"
        by (simp_all add: p n)
      with t m have "\<not> js_le (parseInt a) (parseInt c)"
        by (blast intro: js_le_trans)
      with m show "positive (js_sub (parseInt a) (parseInt c))"
        by (simp add: p)
    }
  qed
qed

lemma conforming_parsed:
  assumes "conforming array_sort" and "\<forall>n \<in> set numbers. parseInt n \<noteq> NaN"
  shows "array_sort (\<lambda>a b. js_sub (parseInt a) (parseInt b)) numbers =
         sort_with (\<lambda>a b. js_sub (parseInt a) (parseInt b)) numbers"
  using assms(1) consistent_parsed [OF assms(2)] by (simp add: conforming_def)

subsection \<open>The course index\<close>

lemma entries_simps:
  "entries [] = []"
  "match_code c = None \<Longrightarrow> entries (c # cs) = entries cs"
  "match_code c = Some e \<Longrightarrow> entries (c # cs) = e # entries cs"
  by (simp_all add: entries_def List.map_filter_simps)

lemma entries_append: "entries (xs @ ys) = entries xs @ entries ys"
  by (simp add: entries_def List.map_filter_def)

lemma set_entries: "set (entries cs) = {e. \<exists>c \<in> set cs. match_code c = Some e}"
proof (induction cs)
  case Nil
  then show ?case by (simp add: entries_simps)
next
  case (Cons c cs)
  then show ?case
    by (cases "match_code c") (auto simp: entries_simps)
qed

lemma subject_not_inherited:
  "match_code c = Some (s, n) \<Longrightarrow> s \<notin> set Object_prototype"
  by (auto simp: match_code_iff Object_prototype_def is_upper_def less_eq_char_def)

lemma add_class_None: "match_code c = None \<Longrightarrow> add_class c acc = Inr acc"
  by (simp add: add_class_def)

lemma add_class_Some:
  assumes "match_code c = Some (s, n)"
  shows "add_class c acc =
    Inr (acc\<lparr>subjects := set_add s (subjects acc),
             classesBySubject := (classesBySubject acc)
               (s \<mapsto> (case classesBySubject acc s of None \<Rightarrow> [] | Some ns \<Rightarrow> ns) @ [n])\<rparr>)"
  using assms subject_not_inherited [OF assms]
  by (cases "classesBySubject acc s") (simp_all add: add_class_def get_property_def Let_def)

lemma forEach_add_class:
  "forEach add_class cs acc =
     Inr (acc\<lparr>subjects := fold set_add (map fst (entries cs)) (subjects acc),
              classesBySubject := (\<lambda>k.
                if numbers_of cs k = [] then classesBySubject acc k
                else Some ((case classesBySubject acc k of None \<Rightarrow> [] | Some ns \<Rightarrow> ns)
                             @ numbers_of cs k))\<rparr>)"
proof (induction cs arbitrary: acc)
  case Nil
  then show ?case by (simp add: entries_simps numbers_of_def)
next
  case (Cons c cs)
  show ?case
  proof (cases "match_code c")
    case None
    then have "numbers_of (c # cs) = numbers_of cs"
      by (simp add: numbers_of_def entries_simps fun_eq_iff)
    with None show ?thesis
      by (simp add: add_class_None Cons.IH entries_simps cong: if_cong)
  next
    case (Some e)
    obtain s n where e: "e = (s, n)" by (cases e)
    with Some have m: "match_code c = Some (s, n)" by simp
    have n1: "numbers_of (c # cs) k = (if s = k then n # numbers_of cs k else numbers_of cs k)" for k
      by (simp add: numbers_of_def entries_simps(3) [OF m])
    show ?thesis
      unfolding forEach.simps add_class_Some [OF m] sum.case Cons.IH
      by (auto simp: entries_simps(3) [OF m] n1 fun_eq_iff split: option.splits)
  qed
qed

lemma parseClasses_eq:
  "parseClasses classes =
     Inr \<lparr>subjects = sort (fold set_add (map fst (entries classes)) []),
          classesBySubject = (\<lambda>k. if numbers_of classes k = [] then None
                                    else Some (numbers_of classes k))\<rparr>"
  by (simp add: parseClasses_def forEach_add_class cong: if_cong)

lemma set_fold_set_add: "set (fold set_add xs ys) = set xs \<union> set ys"
  by (induction xs arbitrary: ys) (auto simp: set_add_def)

lemma distinct_fold_set_add: "distinct ys \<Longrightarrow> distinct (fold set_add xs ys)"
  by (induction xs arbitrary: ys) (auto simp: set_add_def)

lemma numbers_of_set:
  "set (numbers_of classes s) = {n. \<exists>c \<in> set classes. match_code c = Some (s, n)}"
  by (auto simp: numbers_of_def set_entries image_iff)

lemma numbers_of_digits:
  "n \<in> set (numbers_of classes s) \<Longrightarrow> n \<noteq> [] \<and> list_all is_digit n \<and> s @ n \<in> set classes"
  by (auto simp: numbers_of_set match_code_iff)

text \<open>
  Claim C4. The index built from a flat list of codes exists for every list; its subjects are
  pairwise different, in ascending lexicographic order, and they are the subjects of the codes
  that match.
\<close>

theorem subjects_sorted_distinct:
  "\<exists>index. parseClasses classes = Inr index \<and> distinct (subjects index) \<and>
      sorted (subjects index) \<and>
      set (subjects index) = {s. \<exists>c \<in> set classes. \<exists>n. match_code c = Some (s, n)}"
proof -
  have "fst ` set (entries classes) = {s. \<exists>c \<in> set classes. \<exists>n. match_code c = Some (s, n)}"
    by (force simp: set_entries image_iff)
  then show ?thesis
    by (simp add: parseClasses_eq distinct_fold_set_add set_fold_set_add)
qed

text \<open>
  Claim C6. A code that the expression does not match is dropped without an error: the index
  is built, it is the index of the list without that code, and every entry of every number
  list comes from another code of the list.
\<close>

theorem unmatched_code_dropped:
  assumes "match_code code = None"
  shows "\<exists>index. parseClasses (before @ code # after) = Inr index \<and>
      parseClasses (before @ after) = Inr index \<and>
      (\<forall>subject numbers. classesBySubject index subject = Some numbers \<longrightarrow>
         (\<forall>number \<in> set numbers. subject @ number \<noteq> code \<and>
                                  subject @ number \<in> set (before @ after)))"
proof -
  have e: "entries (before @ code # after) = entries (before @ after)"
    using assms by (simp add: entries_append entries_simps)
  then have n: "numbers_of (before @ code # after) = numbers_of (before @ after)"
    by (simp add: numbers_of_def fun_eq_iff)
  have "subject @ number \<noteq> code \<and> subject @ number \<in> set (before @ after)"
    if "number \<in> set (numbers_of (before @ after) subject)" for subject number
  proof -
    from that obtain c where c: "c \<in> set (before @ after)" "match_code c = Some (subject, number)"
      by (auto simp: numbers_of_set)
    then have "c = subject @ number" by (simp add: match_code_iff)
    with c assms show ?thesis by auto
  qed
  then show ?thesis
    unfolding parseClasses_eq e n by (auto split: if_splits)
qed

theorem subjects_sorted_distinct_witness:
  "(case parseClasses [''CS225'', ''MATH241'', ''CS124''] of
      Inl e \<Rightarrow> [] | Inr index \<Rightarrow> subjects index) = [''CS'', ''MATH''] \<and>
   distinct [''CS'', ''MATH''] \<and> sorted [''CS'', ''MATH'']"
proof -
  from subjects_sorted_distinct [of "[''CS225'', ''MATH241'', ''CS124'']"]
  obtain index where i: "parseClasses [''CS225'', ''MATH241'', ''CS124''] = Inr index"
    "distinct (subjects index)" "sorted (subjects index)"
    by blast
  have e: "(case parseClasses [''CS225'', ''MATH241'', ''CS124''] of
      Inl e \<Rightarrow> [] | Inr index \<Rightarrow> subjects index) = [''CS'', ''MATH'']"
    by code_simp
  with i(1) have "subjects index = [''CS'', ''MATH'']" by simp
  with i e show ?thesis by simp
qed

theorem unmatched_code_dropped_witness:
  "match_code ''cs50'' = None \<and>
   (case parseClasses ([''CS9''] @ ''cs50'' # [''CS10'']) of
      Inl e \<Rightarrow> None | Inr index \<Rightarrow> classesBySubject index ''CS'') = Some [''9'', ''10''] \<and>
   (case parseClasses ([''CS9''] @ [''CS10'']) of
      Inl e \<Rightarrow> None | Inr index \<Rightarrow> classesBySubject index ''CS'') = Some [''9'', ''10'']"
proof -
  have m: "match_code ''cs50'' = None" by code_simp
  from unmatched_code_dropped [OF m, of "[''CS9'']" "[''CS10'']"]
  obtain index where i: "parseClasses ([''CS9''] @ ''cs50'' # [''CS10'']) = Inr index"
    "parseClasses ([''CS9''] @ [''CS10'']) = Inr index"
    by blast
  have e: "(case parseClasses ([''CS9''] @ [''CS10'']) of
      Inl e \<Rightarrow> None | Inr index \<Rightarrow> classesBySubject index ''CS'') = Some [''9'', ''10'']"
    by code_simp
  with i m show ?thesis by simp
qed

lemma options_add_options:
  "options (add_options current vs sel) = options sel @ map (\<lambda>v. (v, v)) vs"
  unfolding add_options_def
  by (induction vs arbitrary: sel) (simp_all add: appendChild_def)

lemma key_of_index:
  assumes "parseClasses classes = Inr index" and "classesBySubject index subject = Some numbers"
  shows "numbers = numbers_of classes subject" and "numbers \<noteq> []" and "subject \<noteq> []"
    and "get_property (classesBySubject index) subject = Arr numbers"
proof -
  from assms show n: "numbers = numbers_of classes subject" and ne: "numbers \<noteq> []"
    by (auto simp: parseClasses_eq split: if_splits)
  from ne n have "hd numbers \<in> set (numbers_of classes subject)" by simp
  then obtain c where "match_code c = Some (subject, hd numbers)"
    by (auto simp: numbers_of_set)
  then show "subject \<noteq> []" by (simp add: match_code_iff)
  show "get_property (classesBySubject index) subject = Arr numbers"
    using assms(2) by (simp add: get_property_def)
qed

text \<open>
  The arrays that the first version sorts are the arrays of its index, of digit strings: its
  comparison is consistent on them, and every conforming sort orders them as \<open>sort_with\<close>
  does.
\<close>

lemma index_numbers_sort:
  assumes "parseClasses classes = Inr index" and "classesBySubject index subject = Some numbers"
  shows "consistent (\<lambda>a b. js_sub (parseInt a) (parseInt b)) numbers"
    and "conforming array_sort \<Longrightarrow>
         array_sort (\<lambda>a b. js_sub (parseInt a) (parseInt b)) numbers =
         sort_with (\<lambda>a b. js_sub (parseInt a) (parseInt b)) numbers"
proof -
  have "\<forall>n \<in> set numbers. n \<noteq> [] \<and> list_all is_digit n"
    unfolding key_of_index(1) [OF assms] using numbers_of_digits by blast
  then have parsed: "\<forall>n \<in> set numbers. parseInt n \<noteq> NaN"
    by (simp add: parseInt_digits_not_NaN)
  then show "consistent (\<lambda>a b. js_sub (parseInt a) (parseInt b)) numbers"
    by (rule consistent_parsed)
  show "array_sort (\<lambda>a b. js_sub (parseInt a) (parseInt b)) numbers =
        sort_with (\<lambda>a b. js_sub (parseInt a) (parseInt b)) numbers"
    if "conforming array_sort"
    using that parsed by (rule conforming_parsed)
qed

text \<open>
  Claim C3, as the code has it. For every subject of the index, selected in the subject
  dropdown, the number dropdown is rebuilt as the "All Numbers" option followed by that
  subject's numbers in ascending order of the Numbers that \<^verbatim>\<open>parseInt\<close> gives them. That is
  the ascending order of the numeric values of the digit strings whenever the values are below
  \<open>2 ^ 53\<close>; beyond, a Number is the nearest double. Numbers with the same Number stay in
  input order: for every Number \<open>k\<close>, the numbers that parse to \<open>k\<close> appear in the dropdown in
  the sequence in which the index holds them.
\<close>

theorem numbers_presented_in_numeric_order:
  assumes "parseClasses (CLASSES p) = Inr index"
    and "classesBySubject index subject = Some numbers"
    and "select_value (subject_select p) = subject"
  shows "\<exists>p' presented.
      updateNumberDropdown preserveSelection currentFilter p = Inr p' \<and>
      map fst (options (number_select p')) = [] # presented \<and>
      mset presented = mset numbers \<and>
      sorted_wrt (\<lambda>a b. js_le (parseInt a) (parseInt b)) presented \<and>
      ((\<forall>n \<in> set numbers. radix_value 10 n < 2 ^ 53)
         \<longrightarrow> sorted (map (radix_value 10) presented)) \<and>
      (\<forall>k. filter (\<lambda>n. parseInt n = k) presented = filter (\<lambda>n. parseInt n = k) numbers)"
proof -
  define presented where
    "presented = sort_with (\<lambda>a b. js_sub (parseInt a) (parseInt b)) numbers"
  note k = key_of_index [OF assms(1,2)]
  have digits: "\<forall>n \<in> set numbers. n \<noteq> [] \<and> list_all is_digit n"
    unfolding k(1) using numbers_of_digits by blast
  have upd: "updateNumberDropdown preserveSelection currentFilter p =
      Inr (p\<lparr>number_select := add_options (filter_number preserveSelection currentFilter)
                presented (single_option ''All Numbers'')\<rparr>)"
    using assms(1,3) k(3,4)
    by (simp add: updateNumberDropdown_def Let_def presented_def)
  have opts: "map fst (options (add_options c presented (single_option ''All Numbers'')))
      = [] # presented" for c
    by (simp add: options_add_options single_option_def comp_def)
  have perm: "mset presented = mset numbers"
    by (simp add: presented_def mset_sort_with)
  have srt: "sorted_wrt (\<lambda>a b. js_le (parseInt a) (parseInt b)) presented"
    unfolding presented_def using digits by (rule sorted_numbers)
  have exact: "sorted (map (radix_value 10) presented)"
    if small: "\<forall>n \<in> set numbers. radix_value 10 n < 2 ^ 53"
  proof -
    have "set presented = set numbers"
      by (simp add: presented_def set_sort_with)
    then have "\<forall>n \<in> set presented. parseInt n = Num (radix_value 10 n)"
      using digits small by (simp add: parseInt_exact)
    then have "sorted_wrt (\<lambda>a b. radix_value 10 a \<le> radix_value 10 b) presented"
      using sorted_wrt_mono_rel [OF _ srt, of "\<lambda>a b. radix_value 10 a \<le> radix_value 10 b"]
      by force
    then show ?thesis by (simp add: sorted_map)
  qed
  have stable: "filter (\<lambda>n. parseInt n = k) presented = filter (\<lambda>n. parseInt n = k) numbers"
    for k
    unfolding presented_def using digits
    by (intro stable_parsed) (simp add: parseInt_digits_not_NaN)
  show ?thesis
    using upd opts perm srt exact stable by auto
qed

theorem numbers_presented_in_numeric_order_witness:
  "(case updateNumberDropdown False None cs_page of
      Inl e \<Rightarrow> [] | Inr p' \<Rightarrow> map fst (options (number_select p'))) = ['''', ''9'', ''10'', ''124''] \<and>
   (case parseClasses (CLASSES cs_page) of
      Inl e \<Rightarrow> None | Inr index \<Rightarrow> classesBySubject index ''CS'') = Some [''9'', ''124'', ''10''] \<and>
   sorted (map (radix_value 10) [''9'', ''10'', ''124''])"
proof -
  have e1: "(case parseClasses (CLASSES cs_page) of
      Inl e \<Rightarrow> None | Inr index \<Rightarrow> classesBySubject index ''CS'') = Some [''9'', ''124'', ''10'']"
    by code_simp
  then obtain index where i: "parseClasses (CLASSES cs_page) = Inr index"
    "classesBySubject index ''CS'' = Some [''9'', ''124'', ''10'']"
    by (auto split: sum.splits)
  have s: "select_value (subject_select cs_page) = ''CS''"
    by code_simp
  have small: "\<forall>n \<in> set [''9'', ''124'', ''10'']. radix_value 10 n < 2 ^ 53"
    by code_simp
  from numbers_presented_in_numeric_order [OF i s, of False None]
  obtain p' presented where
    u: "updateNumberDropdown False None cs_page = Inr p'"
    "map fst (options (number_select p')) = [] # presented"
    and imp: "(\<forall>n \<in> set [''9'', ''124'', ''10'']. radix_value 10 n < 2 ^ 53)
         \<longrightarrow> sorted (map (radix_value 10) presented)"
    by (elim exE conjE)
  from imp small have u3: "sorted (map (radix_value 10) presented)" by (rule mp)
  have e2: "(case updateNumberDropdown False None cs_page of
      Inl e \<Rightarrow> [] | Inr p' \<Rightarrow> map fst (options (number_select p'))) = ['''', ''9'', ''10'', ''124'']"
    by code_simp
  with u(1,2) have "presented = [''9'', ''10'', ''124'']" by simp
  with u3 e1 e2 show ?thesis by simp
qed

text \<open>
  The claim for every digit string fails past \<open>2 ^ 53\<close>: 9007199254740993 and
  9007199254740992 have the same double, their difference is zero, and the larger number
  stays in front of the smaller one.
\<close>

theorem equal_doubles_keep_input_order:
  "presented_numbers (updateNumberDropdown False None big_numbers_page) =
     Some [''9007199254740993'', ''9007199254740992''] \<and>
   radix_value 10 ''9007199254740993'' = 9007199254740993 \<and>
   radix_value 10 ''9007199254740992'' = 9007199254740992 \<and>
   parseInt ''9007199254740993'' = Num 9007199254740992 \<and>
   parseInt ''9007199254740992'' = Num 9007199254740992"
  by code_simp

text \<open>
  Claim C2. The value that \<^verbatim>\<open>applyClassFilter\<close> writes to the hidden filter field depends on
  the values of the two dropdowns only: subject followed by number when both are non-empty,
  \<^verbatim>\<open>All\<close> when the number is empty, \<^verbatim>\<open>All\<close> when the subject is empty. The form is submitted
  once, with that value.
\<close>

theorem applyClassFilter_combined:
  assumes "select_value (subject_select p) = subject"
    and "select_value (number_select p) = number"
  shows "(subject \<noteq> [] \<and> number \<noteq> [] \<longrightarrow>
            class_filter_hidden (applyClassFilter p) = subject @ number) \<and>
         (subject \<noteq> [] \<and> number = [] \<longrightarrow> class_filter_hidden (applyClassFilter p) = ''All'') \<and>
         (subject = [] \<longrightarrow> class_filter_hidden (applyClassFilter p) = ''All'') \<and>
         course_filter_form (applyClassFilter p) =
           course_filter_form p @ [class_filter_hidden (applyClassFilter p)]"
  using assms by (simp add: applyClassFilter_def submit_def Let_def)

theorem applyClassFilter_combined_witness:
  "select_value (subject_select cs_page) = ''CS'' \<and>
   select_value (number_select cs_page) = [] \<and>
   class_filter_hidden (applyClassFilter cs_page) = ''All'' \<and>
   course_filter_form (applyClassFilter cs_page) = [''All'']"
proof -
  have s: "select_value (subject_select cs_page) = ''CS''"
    and n: "select_value (number_select cs_page) = []"
    and f: "course_filter_form cs_page = []"
    by (simp_all add: cs_page_def template_page_def select_value_def single_option_def)
  from applyClassFilter_combined [OF s n] f s n show ?thesis by simp
qed

text \<open>
  Claim C5, as the code has it. The change handler of the number dropdown writes \<^verbatim>\<open>All\<close> when
  no number is selected but a subject is, subject followed by number when both are selected,
  and \<^verbatim>\<open>All\<close> when no subject is selected (whatever the number); it submits the form once in
  every case.
\<close>

theorem handleNumberChange_combined:
  assumes "select_value (subject_select p) = subject"
    and "select_value (number_select p) = number"
  shows "(number = [] \<and> subject \<noteq> [] \<longrightarrow> class_filter_hidden (handleNumberChange p) = ''All'') \<and>
         (number \<noteq> [] \<and> subject \<noteq> [] \<longrightarrow>
            class_filter_hidden (handleNumberChange p) = subject @ number) \<and>
         (subject = [] \<longrightarrow> class_filter_hidden (handleNumberChange p) = ''All'') \<and>
         course_filter_form (handleNumberChange p) =
           course_filter_form p @ [class_filter_hidden (handleNumberChange p)]"
  using assms by (simp add: handleNumberChange_def applyClassFilter_def submit_def Let_def)

theorem handleNumberChange_combined_witness:
  "select_value (subject_select cs_page) = ''CS'' \<and>
   select_value (number_select cs_page) = [] \<and>
   class_filter_hidden (handleNumberChange cs_page) = ''All'' \<and>
   course_filter_form (handleNumberChange cs_page) = [''All'']"
proof -
  have s: "select_value (subject_select cs_page) = ''CS''"
    and n: "select_value (number_select cs_page) = []"
    and f: "course_filter_form cs_page = []"
    by (simp_all add: cs_page_def template_page_def select_value_def single_option_def)
  from handleNumberChange_combined [OF s n] f s n show ?thesis by simp
qed

text \<open>
  The claim as the specification words it takes the second branch to give subject followed by
  number in every other state. On the page as loaded, with neither a subject nor a number
  selected, that would be the empty string, and with no subject but the number 124 selected it
  would be \<^verbatim>\<open>124\<close>; the handler writes \<^verbatim>\<open>All\<close> in both states.
\<close>

theorem handleNumberChange_no_subject:
  "select_value (subject_select template_page) = [] \<and>
   select_value (number_select template_page) = [] \<and>
   class_filter_hidden (handleNumberChange template_page) = ''All'' \<and>
   class_filter_hidden (handleNumberChange template_page) \<noteq>
     select_value (subject_select template_page) @ select_value (number_select template_page) \<and>
   select_value (subject_select number_only_page) = [] \<and>
   select_value (number_select number_only_page) = ''124'' \<and>
   class_filter_hidden (handleNumberChange number_only_page) = ''All'' \<and>
   class_filter_hidden (handleNumberChange number_only_page) \<noteq>
     select_value (subject_select number_only_page) @ select_value (number_select number_only_page)"
  by (simp add: number_only_page_def template_page_def select_value_def single_option_def
      handleNumberChange_def applyClassFilter_def submit_def Let_def)

text \<open>
  Claim C8, as the code has it. Every call of \<^verbatim>\<open>loadMore\<close> replaces \<^verbatim>\<open>currentPage\<close> by the
  Number \<^verbatim>\<open>currentPage + 1\<close> (one more for every page number whose successor is below \<open>2 ^ 53\<close>
  in magnitude) and requests that page, whatever the outcome. When the fetch fails, the response is not ok or its body is no
  JSON, nothing changes but the page counter, the request log and the console: the failure is
  logged there and nowhere else. On success the fragment is appended to the container, whose
  former content stays in front, nothing is logged, and the load-more button is hidden when
  \<^verbatim>\<open>has_more\<close> is false and left as it was when it is true.
\<close>

theorem loadMore_outcomes:
  "currentPage (loadMore outcome p) = js_add (currentPage p) (Num 1) \<and>
   (\<forall>n. currentPage p = Num n \<and> \<bar>n + 1\<bar> < 2 ^ 53 \<longrightarrow>
      currentPage (loadMore outcome p) = Num (n + 1)) \<and>
   requests (loadMore outcome p) =
     requests p @ [\<lparr>req_params = filter (\<lambda>kv. fst kv \<noteq> ''page'') (filter_form p),
                    req_page = js_add (currentPage p) (Num 1)\<rparr>] \<and>
   (outcome = NetworkFailure \<or> (\<exists>body. outcome = Response False body) \<or>
    outcome = Response True None \<longrightarrow>
      loadMore outcome p =
        p\<lparr>currentPage := js_add (currentPage p) (Num 1),
          requests := requests p @
            [\<lparr>req_params = filter (\<lambda>kv. fst kv \<noteq> ''page'') (filter_form p),
              req_page = js_add (currentPage p) (Num 1)\<rparr>],
          console_error := console_error p @ [''Failed to load more notes'']\<rparr>) \<and>
   (\<forall>data. outcome = Response True (Some data) \<longrightarrow>
      notes_container (loadMore outcome p) = notes_container p @ html data \<and>
      console_error (loadMore outcome p) = console_error p \<and>
      load_more (loadMore outcome p) =
        (if has_more data then load_more p
         else (case load_more p of None \<Rightarrow> None | Some display \<Rightarrow> Some ''none'')))"
proof -
  have "currentPage (loadMore outcome p) = js_add (currentPage p) (Num 1)"
    by (cases outcome) (auto simp: loadMore_def Let_def split: option.splits)
  moreover have "js_add (Num n) (Num 1) = Num (n + 1)" if "\<bar>n + 1\<bar> < 2 ^ 53" for n
    using that by (simp add: to_double_def)
  moreover have "requests (loadMore outcome p) =
     requests p @ [\<lparr>req_params = filter (\<lambda>kv. fst kv \<noteq> ''page'') (filter_form p),
                    req_page = js_add (currentPage p) (Num 1)\<rparr>]"
    by (cases outcome) (auto simp: loadMore_def Let_def split: option.splits)
  moreover have "loadMore outcome p =
        p\<lparr>currentPage := js_add (currentPage p) (Num 1),
          requests := requests p @
            [\<lparr>req_params = filter (\<lambda>kv. fst kv \<noteq> ''page'') (filter_form p),
              req_page = js_add (currentPage p) (Num 1)\<rparr>],
          console_error := console_error p @ [''Failed to load more notes'']\<rparr>"
    if "outcome = NetworkFailure \<or> (\<exists>body. outcome = Response False body) \<or>
        outcome = Response True None"
    using that by (auto simp: loadMore_def Let_def)
  moreover have "notes_container (loadMore outcome p) = notes_container p @ html data \<and>
      console_error (loadMore outcome p) = console_error p \<and>
      load_more (loadMore outcome p) =
        (if has_more data then load_more p
         else (case load_more p of None \<Rightarrow> None | Some display \<Rightarrow> Some ''none''))"
    if "outcome = Response True (Some data)" for data
    using that by (auto simp: loadMore_def Let_def split: option.splits)
  ultimately show ?thesis by simp
qed

theorem loadMore_outcomes_witness:
  "currentPage template_page = Num 1 \<and>
   currentPage (loadMore NetworkFailure template_page) = Num 2 \<and>
   notes_container (loadMore NetworkFailure template_page) = [] \<and>
   console_error (loadMore NetworkFailure template_page) = [''Failed to load more notes''] \<and>
   notes_container (loadMore (Response True (Some \<lparr>html = ''<div>X</div>'', has_more = False\<rparr>))
     template_page) = ''<div>X</div>'' \<and>
   load_more (loadMore (Response True (Some \<lparr>html = ''<div>X</div>'', has_more = False\<rparr>))
     template_page) = Some ''none'' \<and>
   load_more (loadMore (Response True (Some \<lparr>html = ''<div>X</div>'', has_more = True\<rparr>))
     template_page) = Some []"
proof -
  have c: "currentPage template_page = Num 1" and b: "\<bar>(1::int) + 1\<bar> < 2 ^ 53"
    and t: "notes_container template_page = []" "console_error template_page = []"
      "load_more template_page = Some []"
    by (simp_all add: template_page_def)
  have e: "loadMore NetworkFailure template_page =
      template_page\<lparr>currentPage := js_add (currentPage template_page) (Num 1),
          requests := requests template_page @
            [\<lparr>req_params = filter (\<lambda>kv. fst kv \<noteq> ''page'') (filter_form template_page),
              req_page = js_add (currentPage template_page) (Num 1)\<rparr>],
          console_error := console_error template_page @ [''Failed to load more notes'']\<rparr>"
    using loadMore_outcomes [of NetworkFailure template_page] by simp
  have "notes_container (loadMore NetworkFailure template_page) = []"
    by (subst e) (simp add: t)
  moreover have "console_error (loadMore NetworkFailure template_page) =
      [''Failed to load more notes'']"
    by (subst e) (simp add: t)
  moreover have "currentPage (loadMore NetworkFailure template_page) = Num 2"
    using loadMore_outcomes [of NetworkFailure template_page] c b
    by (simp add: to_double_def)
  ultimately show ?thesis
    using loadMore_outcomes
      [of "Response True (Some \<lparr>html = ''<div>X</div>'', has_more = False\<rparr>)" template_page]
      loadMore_outcomes
      [of "Response True (Some \<lparr>html = ''<div>X</div>'', has_more = True\<rparr>)" template_page]
      c t
    by simp
qed

text \<open>
  The claim for every page counter fails where a double has no successor one above it: at
  \<open>2 ^ 53\<close> the sum rounds back to \<open>2 ^ 53\<close>, and a counter that is no number (a page
  attribute without digits) stays so.
\<close>

theorem loadMore_counter_stuck:
  "currentPage last_page = Num 9007199254740992 \<and>
   currentPage (loadMore NetworkFailure last_page) = Num 9007199254740992 \<and>
   parseInt ''abc'' = NaN \<and>
   currentPage nan_page = NaN \<and>
   currentPage (loadMore NetworkFailure nan_page) = NaN"
  by code_simp

lemma capital_subject_not_inherited:
  "list_all is_upper subject \<Longrightarrow> subject \<notin> set Object_prototype"
  by (auto simp: Object_prototype_def is_upper_def less_eq_char_def)

text \<open>
  A selected subject without numbers. \<^verbatim>\<open>classesBySubject[selectedSubject] || []\<close> is written to
  fall back to no numbers. It does when the selected subject is no key of the mapping and no
  name of a member of \<^verbatim>\<open>Object.prototype\<close> either (no string of capital letters is one):
  \<^verbatim>\<open>updateNumberDropdown\<close> then returns without an error and leaves the number dropdown with
  the "All Numbers" option alone; nothing else on the page changes. This holds in both
  versions of the script.
\<close>

lemma unknown_subject_only_sentinel:
  assumes "subject \<notin> set Object_prototype"
  shows "(select_value (subject_select p) = subject \<and>
          (\<exists>index. parseClasses (CLASSES p) = Inr index \<and> classesBySubject index subject = None)
          \<longrightarrow> updateNumberDropdown preserveSelection currentFilter p =
                Inr (p\<lparr>number_select := single_option ''All Numbers''\<rparr>)) \<and>
         (select_value (subject_select q) = subject \<and> COURSES_DICT q subject = None
          \<longrightarrow> updateNumberDropdown_s array_sort preserveSelection currentFilter q =
                Inr (q\<lparr>number_select := single_option ''All Numbers''\<rparr>))"
  using assms
  by (auto simp: updateNumberDropdown_def updateNumberDropdown_s_def parseClasses_s_def
      get_property_def Let_def)

lemma unknown_subject_only_sentinel_witness:
  "''PHYS'' \<notin> set Object_prototype \<and>
   select_value (subject_select physics_page_s) = ''PHYS'' \<and>
   COURSES_DICT physics_page_s ''PHYS'' = None \<and>
   updateNumberDropdown_s sort_with False None physics_page_s =
     Inr (physics_page_s\<lparr>number_select := single_option ''All Numbers''\<rparr>)"
proof -
  have a: "''PHYS'' \<notin> set Object_prototype"
    by (simp add: Object_prototype_def)
  have s: "select_value (subject_select physics_page_s) = ''PHYS''"
    and d: "COURSES_DICT physics_page_s ''PHYS'' = None"
    by (simp_all add: physics_page_s_def cs_page_s_def template_page_s_def select_value_def)
  from unknown_subject_only_sentinel
    [OF a, where q = physics_page_s and p = template_page and preserveSelection = False
      and currentFilter = None and array_sort = sort_with] s d a
  show ?thesis by simp
qed

text \<open>
  Claim C9: a selected subject that is no key of the mapping leaves the number dropdown with
  the "All Numbers" option alone, and no error is raised. The code departs from it at the
  names that every object inherits: the fallback \<^verbatim>\<open>|| []\<close> is there, but the lookup goes through
  the prototype. With \<^verbatim>\<open>constructor\<close> selected, which is no key of the mapping in either
  version, the lookup yields a function, the fallback is not taken, and \<^verbatim>\<open>numbers.sort\<close> throws
  a \<^verbatim>\<open>TypeError\<close>, whatever the sort of the engine.
\<close>

theorem inherited_name_throws:
  "select_value (subject_select constructor_page_s) = ''constructor'' \<and>
   COURSES_DICT constructor_page_s ''constructor'' = None \<and>
   updateNumberDropdown_s array_sort False None constructor_page_s = Inl TypeError \<and>
   select_value (subject_select constructor_page) = ''constructor'' \<and>
   parseClasses (CLASSES constructor_page) = Inr \<lparr>subjects = [], classesBySubject = Map.empty\<rparr> \<and>
   updateNumberDropdown False None constructor_page = Inl TypeError"
  by (simp add: constructor_page_s_def constructor_page_def template_page_s_def template_page_def
      select_value_def updateNumberDropdown_s_def updateNumberDropdown_def parseClasses_s_def
      parseClasses_def get_property_def Object_prototype_def Let_def)

lemma forEach_invariant:
  assumes "\<And>x s s'. f x s = Inr s' \<Longrightarrow> R s s'"
    and "\<And>s. R s s" and "\<And>a b c. R a b \<Longrightarrow> R b c \<Longrightarrow> R a c"
  shows "forEach f xs s = Inr s' \<Longrightarrow> R s s'"
proof (induction xs arbitrary: s)
  case Nil
  then show ?case using assms(2) by simp
next
  case (Cons x xs)
  then obtain s1 where s1: "f x s = Inr s1" "forEach f xs s1 = Inr s'"
    by (auto split: sum.splits)
  from assms(1) [OF s1(1)] Cons.IH [OF s1(2)] show ?case
    by (rule assms(3))
qed

lemma step_CLASSES: "step ev p = Inr p' \<Longrightarrow> CLASSES p' = CLASSES p"
  by (cases ev)
    (auto simp: populateSubjects_def updateNumberDropdown_def handleSubjectChange_def
      renew_numberChoice_def handleNumberChange_def applyClassFilter_def submit_def
      loadMore_def Let_def
      split: sum.splits jsval.splits if_splits option.splits fetch_outcome.splits)

lemma updateNumberDropdown_s_dict:
  assumes "updateNumberDropdown_s array_sort preserveSelection currentFilter q = Inr q'"
  shows "SUBJECTS q' = SUBJECTS q" and "CLASSES q' = CLASSES q"
    and "subject_select q' = subject_select q" and "numberChoice q' = numberChoice q"
    and "COURSES_DICT q' =
      (case COURSES_DICT q (select_value (subject_select q)) of
         None \<Rightarrow> COURSES_DICT q
       | Some numbers \<Rightarrow>
           if select_value (subject_select q) = [] then COURSES_DICT q
           else (COURSES_DICT q)(select_value (subject_select q) \<mapsto>
                  array_sort (\<lambda>a b. js_sub (parseInt a) (parseInt b)) numbers))"
  using assms
  by (auto simp: updateNumberDropdown_s_def parseClasses_s_def get_property_def Let_def
      split: if_splits option.splits jsval.splits)

lemma mset_conforming: "conforming array_sort \<Longrightarrow> mset (array_sort c xs) = mset xs"
  by (simp add: conforming_def)

lemma updateNumberDropdown_s_same:
  assumes "updateNumberDropdown_s array_sort preserveSelection currentFilter q = Inr q'"
    and "conforming array_sort"
  shows "map_option mset (COURSES_DICT q' k) = map_option mset (COURSES_DICT q k)"
  unfolding updateNumberDropdown_s_dict(5) [OF assms(1)]
  by (auto simp: mset_conforming [OF assms(2)] split: option.splits)

lemma step_s_same:
  assumes "step_s array_sort ev q = Inr q'" and c: "conforming array_sort"
  shows "SUBJECTS q' = SUBJECTS q \<and> CLASSES q' = CLASSES q \<and>
         (\<forall>k. map_option mset (COURSES_DICT q' k) = map_option mset (COURSES_DICT q k))"
proof (cases ev)
  case (Populate f)
  with assms show ?thesis by (auto simp: populateSubjects_s_def Let_def)
next
  case (Update b f)
  with assms have u: "updateNumberDropdown_s array_sort b f q = Inr q'" by simp
  show ?thesis
    using updateNumberDropdown_s_dict(1,2) [OF u] updateNumberDropdown_s_same [OF u c] by simp
next
  case Apply
  with assms show ?thesis by (auto simp: applyClassFilter_def submit_def Let_def)
next
  case (Subject_changed i)
  define q0 where "q0 = q\<lparr>subject_select := pick_option i (subject_select q)\<rparr>"
  from assms Subject_changed obtain q1 where
    u: "updateNumberDropdown_s array_sort False None q0 = Inr q1"
    and r: "SUBJECTS q' = SUBJECTS q1 \<and> CLASSES q' = CLASSES q1 \<and>
            COURSES_DICT q' = COURSES_DICT q1"
    by (auto simp: handleSubjectChange_s_def renew_numberChoice_def submit_def q0_def
        split: sum.splits option.splits if_splits)
  show ?thesis
    using updateNumberDropdown_s_dict(1,2) [OF u] updateNumberDropdown_s_same [OF u c] r
    by (simp add: q0_def)
next
  case (Number_changed i)
  with assms show ?thesis
    by (auto simp: handleNumberChange_def applyClassFilter_def submit_def Let_def)
next
  case (Load_more outcome)
  with assms show ?thesis
    by (auto simp: loadMore_def Let_def split: fetch_outcome.splits option.splits)
qed

text \<open>
  Claim C7, as the code has it. No sequence of filter and pagination events changes the list
  of codes of the first version, so the index computed from it stays what it was. In the
  version with an index from the server, under every conforming sort, the subject list is
  never changed and every subject keeps its numbers, but not their order: a rebuild of the
  number dropdown leaves the entries of all other subjects as they are and rearranges the
  stored sequence of the selected subject. When every entry of that sequence parses to a
  Number, the sequence stored afterwards is in ascending order of these Numbers, entries with
  the same Number in their former order.
\<close>

theorem index_after_events:
  assumes "conforming array_sort"
  shows "(forEach step events p = Inr p' \<longrightarrow>
      CLASSES p' = CLASSES p \<and> parseClasses (CLASSES p') = parseClasses (CLASSES p)) \<and>
   (forEach (step_s array_sort) events q = Inr q' \<longrightarrow>
      SUBJECTS q' = SUBJECTS q \<and>
      (\<forall>subject. map_option mset (COURSES_DICT q' subject) =
                  map_option mset (COURSES_DICT q subject))) \<and>
   (updateNumberDropdown_s array_sort preserveSelection currentFilter q = Inr q'' \<longrightarrow>
      (\<forall>subject. subject \<noteq> select_value (subject_select q) \<longrightarrow>
         COURSES_DICT q'' subject = COURSES_DICT q subject) \<and>
      (\<forall>numbers. COURSES_DICT q (select_value (subject_select q)) = Some numbers \<and>
                  select_value (subject_select q) \<noteq> [] \<longrightarrow>
         (\<exists>stored. COURSES_DICT q'' (select_value (subject_select q)) = Some stored \<and>
            mset stored = mset numbers \<and>
            ((\<forall>n \<in> set numbers. parseInt n \<noteq> NaN) \<longrightarrow>
               sorted_wrt (\<lambda>a b. js_le (parseInt a) (parseInt b)) stored \<and>
               (\<forall>k. filter (\<lambda>n. parseInt n = k) stored =
                     filter (\<lambda>n. parseInt n = k) numbers)))))"
proof -
  have "CLASSES p' = CLASSES p" if "forEach step events p = Inr p'"
    using that
    by (rule forEach_invariant [where f = step and R = "\<lambda>a b. CLASSES b = CLASSES a", rotated -1])
      (simp_all add: step_CLASSES)
  moreover have "SUBJECTS q' = SUBJECTS q \<and>
      (\<forall>subject. map_option mset (COURSES_DICT q' subject) =
                  map_option mset (COURSES_DICT q subject))"
    if "forEach (step_s array_sort) events q = Inr q'"
  proof -
    have "SUBJECTS q' = SUBJECTS q \<and> CLASSES q' = CLASSES q \<and>
         (\<forall>k. map_option mset (COURSES_DICT q' k) = map_option mset (COURSES_DICT q k))"
      using that
      by (rule forEach_invariant [where f = "step_s array_sort" and
            R = "\<lambda>a b. SUBJECTS b = SUBJECTS a \<and> CLASSES b = CLASSES a \<and>
              (\<forall>k. map_option mset (COURSES_DICT b k) = map_option mset (COURSES_DICT a k))",
            rotated -1])
        (simp_all add: step_s_same [OF _ assms])
    then show ?thesis by simp
  qed
  moreover have "(\<forall>subject. subject \<noteq> select_value (subject_select q) \<longrightarrow>
         COURSES_DICT q'' subject = COURSES_DICT q subject) \<and>
      (\<forall>numbers. COURSES_DICT q (select_value (subject_select q)) = Some numbers \<and>
                  select_value (subject_select q) \<noteq> [] \<longrightarrow>
         (\<exists>stored. COURSES_DICT q'' (select_value (subject_select q)) = Some stored \<and>
            mset stored = mset numbers \<and>
            ((\<forall>n \<in> set numbers. parseInt n \<noteq> NaN) \<longrightarrow>
               sorted_wrt (\<lambda>a b. js_le (parseInt a) (parseInt b)) stored \<and>
               (\<forall>k. filter (\<lambda>n. parseInt n = k) stored =
                     filter (\<lambda>n. parseInt n = k) numbers))))"
    if u: "updateNumberDropdown_s array_sort preserveSelection currentFilter q = Inr q''"
  proof (intro conjI allI impI)
    fix subject
    assume "subject \<noteq> select_value (subject_select q)"
    then show "COURSES_DICT q'' subject = COURSES_DICT q subject"
      unfolding updateNumberDropdown_s_dict(5) [OF u] by (auto split: option.splits)
  next
    fix numbers
    assume n: "COURSES_DICT q (select_value (subject_select q)) = Some numbers \<and>
               select_value (subject_select q) \<noteq> []"
    define stored where "stored = array_sort (\<lambda>a b. js_sub (parseInt a) (parseInt b)) numbers"
    have 1: "COURSES_DICT q'' (select_value (subject_select q)) = Some stored"
      unfolding updateNumberDropdown_s_dict(5) [OF u] using n by (simp add: stored_def)
    have 2: "mset stored = mset numbers"
      unfolding stored_def by (rule mset_conforming [OF assms])
    have 3: "sorted_wrt (\<lambda>a b. js_le (parseInt a) (parseInt b)) stored \<and>
             (\<forall>k. filter (\<lambda>n. parseInt n = k) stored = filter (\<lambda>n. parseInt n = k) numbers)"
      if parsed: "\<forall>n \<in> set numbers. parseInt n \<noteq> NaN"
      unfolding stored_def conforming_parsed [OF assms parsed]
      using sorted_parsed [OF parsed] stable_parsed [OF parsed] by simp
    from 1 2 3 show "\<exists>stored. COURSES_DICT q'' (select_value (subject_select q)) = Some stored \<and>
            mset stored = mset numbers \<and>
            ((\<forall>n \<in> set numbers. parseInt n \<noteq> NaN) \<longrightarrow>
               sorted_wrt (\<lambda>a b. js_le (parseInt a) (parseInt b)) stored \<and>
               (\<forall>k. filter (\<lambda>n. parseInt n = k) stored =
                     filter (\<lambda>n. parseInt n = k) numbers))"
      by blast
  qed
  ultimately show ?thesis by simp
qed

theorem index_after_events_witness:
  "conforming sort_with \<and>
   map_sum id CLASSES (forEach step [Subject_changed 1, Number_changed 2, Load_more NetworkFailure]
      cs_page) = Inr [''CS9'', ''MATH241'', ''CS124'', ''cs50'', ''CS10''] \<and>
   map_sum id (\<lambda>q. (SUBJECTS q, map_option mset (COURSES_DICT q ''CS'')))
     (forEach (step_s sort_with) [Subject_changed 1, Number_changed 2] cs_page_s) =
     Inr ([''CS''], Some (mset [''225'', ''124''])) \<and>
   parseInt ''225'' \<noteq> NaN \<and> parseInt ''124'' \<noteq> NaN \<and>
   (\<exists>q'' stored. updateNumberDropdown_s sort_with False None cs_page_s = Inr q'' \<and>
      COURSES_DICT q'' ''CS'' = Some stored \<and>
      sorted_wrt (\<lambda>a b. js_le (parseInt a) (parseInt b)) stored)"
proof -
  note conf = conforming_sort_with
  have c: "CLASSES cs_page = [''CS9'', ''MATH241'', ''CS124'', ''cs50'', ''CS10'']"
    and s: "SUBJECTS cs_page_s = [''CS'']"
      "COURSES_DICT cs_page_s ''CS'' = Some [''225'', ''124'']"
    and sel: "select_value (subject_select cs_page_s) = ''CS''"
    by (simp_all add: cs_page_def cs_page_s_def template_page_def template_page_s_def
        select_value_def)
  have "case forEach step [Subject_changed 1, Number_changed 2, Load_more NetworkFailure]
      cs_page of Inl e \<Rightarrow> False | Inr p' \<Rightarrow> True"
    by code_simp
  then obtain p' where
    p': "forEach step [Subject_changed 1, Number_changed 2, Load_more NetworkFailure] cs_page
           = Inr p'"
    by (auto split: sum.splits)
  have "case forEach (step_s sort_with) [Subject_changed 1, Number_changed 2] cs_page_s of
      Inl e \<Rightarrow> False | Inr q' \<Rightarrow> True"
    by code_simp
  then obtain q' where
    q': "forEach (step_s sort_with) [Subject_changed 1, Number_changed 2] cs_page_s = Inr q'"
    by (auto split: sum.splits)
  have "case updateNumberDropdown_s sort_with False None cs_page_s of
      Inl e \<Rightarrow> False | Inr q'' \<Rightarrow> True"
    by code_simp
  then obtain q'' where
    q'': "updateNumberDropdown_s sort_with False None cs_page_s = Inr q''"
    by (auto split: sum.splits)
  have parsed: "parseInt ''225'' \<noteq> NaN \<and> parseInt ''124'' \<noteq> NaN"
    by code_simp
  from index_after_events [OF conf, where p = cs_page and p' = p' and q = cs_page_s and q' = q'
      and events = "[Subject_changed 1, Number_changed 2, Load_more NetworkFailure]"] p'
  have 1: "CLASSES p' = CLASSES cs_page" by simp
  from index_after_events [OF conf, where p = cs_page and q = cs_page_s and q' = q'
      and events = "[Subject_changed 1, Number_changed 2]"] q'
  have 2: "SUBJECTS q' = SUBJECTS cs_page_s"
    "map_option mset (COURSES_DICT q' ''CS'') = map_option mset (COURSES_DICT cs_page_s ''CS'')"
    by simp_all
  note r = index_after_events [OF conf, where q = cs_page_s and q'' = q''
      and preserveSelection = False and currentFilter = None,
      THEN conjunct2, THEN conjunct2, THEN mp, OF q'', THEN conjunct2, THEN spec,
      where x = "[''225'', ''124'']", THEN mp]
  have "COURSES_DICT cs_page_s (select_value (subject_select cs_page_s)) = Some [''225'', ''124''] \<and>
        select_value (subject_select cs_page_s) \<noteq> []"
    using s sel by simp
  from r [OF this] obtain stored where
    st: "COURSES_DICT q'' ''CS'' = Some stored"
    and imp: "(\<forall>n \<in> set [''225'', ''124'']. parseInt n \<noteq> NaN) \<longrightarrow>
       sorted_wrt (\<lambda>a b. js_le (parseInt a) (parseInt b)) stored \<and>
       (\<forall>k. filter (\<lambda>n. parseInt n = k) stored =
             filter (\<lambda>n. parseInt n = k) [''225'', ''124''])"
    unfolding sel by (elim exE conjE)
  from imp parsed have 3: "sorted_wrt (\<lambda>a b. js_le (parseInt a) (parseInt b)) stored"
    by simp
  have 4: "\<exists>q'' stored. updateNumberDropdown_s sort_with False None cs_page_s = Inr q'' \<and>
      COURSES_DICT q'' ''CS'' = Some stored \<and>
      sorted_wrt (\<lambda>a b. js_le (parseInt a) (parseInt b)) stored"
    using q'' st 3 by blast
  show ?thesis
    using conf p' q' 1 2 c s parsed 4 by simp
qed

text \<open>
  The claim that the number sequences stay as they are fails on the version with an index from
  the server: the catalogue lists CS as 225, 124, and after one rebuild of the number dropdown
  with CS selected the catalogue itself holds 124, 225. Both entries are digit strings, so
  this is the order in every engine.
\<close>

theorem rebuild_sorts_catalogue:
  "stored_numbers ''CS'' (Inr cs_page_s) = Some [''225'', ''124''] \<and>
   select_value (subject_select cs_page_s) = ''CS'' \<and>
   consistent (\<lambda>a b. js_sub (parseInt a) (parseInt b)) [''225'', ''124''] \<and>
   stored_numbers ''CS'' (updateNumberDropdown_s sort_with False None cs_page_s) =
     Some [''124'', ''225''] \<and>
   stored_numbers ''CS'' (step_s sort_with (Subject_changed 1) cs_page_s) =
     Some [''124'', ''225'']"
proof -
  have "\<forall>n \<in> set [''225'', ''124'']. parseInt n \<noteq> NaN"
    by code_simp
  then have "consistent (\<lambda>a b. js_sub (parseInt a) (parseInt b)) [''225'', ''124'']"
    by (rule consistent_parsed)
  moreover have "stored_numbers ''CS'' (Inr cs_page_s) = Some [''225'', ''124'']"
    and "select_value (subject_select cs_page_s) = ''CS''"
    and "stored_numbers ''CS'' (updateNumberDropdown_s sort_with False None cs_page_s) =
      Some [''124'', ''225'']"
    and "stored_numbers ''CS'' (step_s sort_with (Subject_changed 1) cs_page_s) =
      Some [''124'', ''225'']"
    by code_simp+
  ultimately show ?thesis
    by (intro conjI)
qed

lemma options_remove_all_but_first:
  "options (remove_all_but_first sel) = take 1 (options sel)"
proof (induction sel rule: remove_all_but_first.induct)
  case (1 sel)
  show ?case
  proof (cases "1 < length (options sel)")
    case True
    then obtain a b rest where o: "options sel = a # b # rest"
      by (cases "options sel"; cases "tl (options sel)") auto
    have "options (remove_all_but_first sel) = options (remove_all_but_first (remove_option 1 sel))"
      using True by (subst remove_all_but_first.simps) simp
    also have "\<dots> = take 1 (options (remove_option 1 sel))"
      using "1.IH" True by simp
    also have "\<dots> = take 1 (options sel)"
      using o by (simp add: remove_option_def)
    finally show ?thesis .
  next
    case False
    then have "remove_all_but_first sel = sel"
      by (subst remove_all_but_first.simps) simp
    moreover from False have "take 1 (options sel) = options sel"
      by (cases "options sel") auto
    ultimately show ?thesis by simp
  qed
qed

lemma select_value_cases:
  "select_value sel = [] \<or> select_value sel \<in> fst ` set (options sel)"
  by (auto simp: select_value_def)

lemma first_option_lookup:
  assumes "\<forall>opt \<in> set (take 1 (options sel)). fst opt \<notin> set Object_prototype"
  shows "select_value (remove_all_but_first sel) = [] \<or>
         get_property Map.empty (select_value (remove_all_but_first sel)) = Undefined"
  using assms select_value_cases [of "remove_all_but_first sel"]
  by (auto simp: options_remove_all_but_first get_property_def)

lemma parseInt_1: "parseInt ''1'' = Num 1"
  by code_simp

lemma parseClasses_Nil:
  "parseClasses [] = Inr \<lparr>subjects = [], classesBySubject = Map.empty\<rparr>"
  by (simp add: parseClasses_def)

lemma initializePage_defaults:
  assumes "\<forall>opt \<in> set (take 1 (options (subject_select p))). fst opt \<notin> set Object_prototype"
  shows "initializePage (Num 1) [] ''All'' p =
     Inr (p\<lparr>currentPage := Num 1, CLASSES := [],
            subject_select := remove_all_but_first (subject_select p),
            number_select := single_option ''All Numbers'',
            subjectChoice := Some (take 1 (options (subject_select p))),
            numberChoice := Some [([], ''All Numbers'')],
            listeners := listeners p @
              [(''subject-select'', ''change''), (''number-select'', ''change''),
               (''note-modal'', ''click''), (''document'', ''keydown'')]\<rparr>)"
  using first_option_lookup [OF assms]
  by (auto simp: initializePage_def populateSubjects_def updateNumberDropdown_def
      parseClasses_Nil filter_subject_def add_options_def options_remove_all_but_first
      single_option_def Let_def)

lemma init_edit_modal_total:
  "\<exists>modals. init_edit_modal array_sort subtract m (before, Map.empty) = Inr (modals, Map.empty)"
proof (cases "match_code (edit_class_hidden m)")
  case None
  then show ?thesis by (simp add: init_edit_modal_def)
next
  case (Some e)
  obtain s n where e: "e = (s, n)" by (cases e)
  with Some have "s \<notin> set Object_prototype"
    using subject_not_inherited by simp
  with Some e show ?thesis
    by (simp add: init_edit_modal_def get_property_def Let_def)
qed

lemma forEach_init_edit_modal_total:
  "\<exists>modals. forEach (init_edit_modal array_sort subtract) ms (before, Map.empty) = Inr (modals, Map.empty)"
proof (induction ms arbitrary: before)
  case Nil
  then show ?case by simp
next
  case (Cons m ms)
  from init_edit_modal_total [of array_sort subtract m before] obtain modals where
    "init_edit_modal array_sort subtract m (before, Map.empty) = Inr (modals, Map.empty)" by blast
  with Cons.IH [of modals] show ?case by simp
qed

lemma initializePage_s_defaults:
  assumes "\<forall>opt \<in> set (take 1 (options (subject_select q))). fst opt \<notin> set Object_prototype"
  shows "\<exists>q'. initializePage_s array_sort subtract (Num 1) [] Map.empty [] ''All'' q = Inr q' \<and>
     currentPage q' = Num 1 \<and> CLASSES q' = [] \<and> COURSES_DICT q' = Map.empty \<and>
     SUBJECTS q' = [] \<and> options (number_select q') = [([], ''All Numbers'')] \<and>
     options (subject_select q') = take 1 (options (subject_select q))"
proof -
  define q2 where "q2 = populateSubjects_s ''All''
    (q\<lparr>currentPage := Num 1, CLASSES := [], COURSES_DICT := Map.empty, SUBJECTS := []\<rparr>)"
  have q2: "subject_select q2 = remove_all_but_first (subject_select q)"
    "COURSES_DICT q2 = Map.empty" "SUBJECTS q2 = []" "currentPage q2 = Num 1" "CLASSES q2 = []"
    by (simp_all add: q2_def populateSubjects_s_def parseClasses_s_def add_options_def Let_def)
  have u: "updateNumberDropdown_s array_sort True (Some ''All'') q2 =
      Inr (q2\<lparr>number_select := single_option ''All Numbers''\<rparr>)"
    using first_option_lookup [OF assms]
    by (auto simp: updateNumberDropdown_s_def parseClasses_s_def q2 Let_def)
  define q4 where "q4 = initializeCreateModalDropdowns
     (q2\<lparr>number_select := single_option ''All Numbers'',
         subjectChoice := Some (options (subject_select q2)),
         numberChoice := Some (options (single_option ''All Numbers'')),
         listeners := listeners q2 @
           [(''subject-select'', ''change''), (''number-select'', ''change'')]\<rparr>)"
  have q4: "COURSES_DICT q4 = Map.empty" "SUBJECTS q4 = []" "currentPage q4 = Num 1"
    "CLASSES q4 = []" "number_select q4 = single_option ''All Numbers''"
    "subject_select q4 = remove_all_but_first (subject_select q)"
    by (simp_all add: q4_def initializeCreateModalDropdowns_def q2
        split: option.splits prod.splits)
  from forEach_init_edit_modal_total [of array_sort subtract "edit_modals q4" "[]"] obtain modals where
    m: "forEach (init_edit_modal array_sort subtract) (edit_modals q4) ([], Map.empty) = Inr (modals, Map.empty)"
    by blast
  have e: "initializeEditModalDropdowns array_sort subtract q4 =
      Inr (q4\<lparr>edit_modals := modals, COURSES_DICT := Map.empty,
             listeners := listeners q4 @
               concat (map (\<lambda>m. [(''edit-subject-select'', ''change''),
                                  (''edit-number'', ''change'')]) modals)\<rparr>)"
    by (simp add: initializeEditModalDropdowns_def q4 m)
  have "initializePage_s array_sort subtract (Num 1) [] Map.empty [] ''All'' q =
      (case initializeEditModalDropdowns array_sort subtract q4 of
         Inl e \<Rightarrow> Inl e
       | Inr p5 \<Rightarrow>
           Inr (p5\<lparr>listeners := listeners p5 @
                     (if note_modal p5 then [(''note-modal'', ''click'')] else []) @
                     [(''document'', ''keydown'')]\<rparr>))"
    unfolding initializePage_s_def Let_def q2_def [symmetric] u sum.case q4_def
    by (simp add: single_option_def)
  then show ?thesis
    by (simp add: e q4 single_option_def options_remove_all_but_first)
qed

text \<open>
  Claim C10. A missing data attribute is read as its default text: \<^verbatim>\<open>1\<close> for the page
  number, \<^verbatim>\<open>[]\<close> for the class list and the subject list, \<^verbatim>\<open>{}\<close> for the catalogue, \<^verbatim>\<open>All\<close>
  for the active filter. With all attributes missing, both versions initialise the page
  without an error, with page number 1, no classes (no subjects and an empty catalogue), the
  subject dropdown cut down to its first option and the number dropdown holding "All
  Numbers" alone. What is assumed: \<^verbatim>\<open>JSON.parse\<close> reads \<^verbatim>\<open>[]\<close> as the empty array and \<^verbatim>\<open>{}\<close> as
  the empty object, and the first option of the subject dropdown is not named like a member
  of \<^verbatim>\<open>Object.prototype\<close> (the template gives it the empty value).
\<close>

theorem missing_attributes_default:
  assumes "JSON_parse ''[]'' = Inr []" and "JSON_parse_object ''{}'' = Inr Map.empty"
    and "\<forall>opt \<in> set (take 1 (options (subject_select p))). fst opt \<notin> set Object_prototype"
    and "\<forall>opt \<in> set (take 1 (options (subject_select q))). fst opt \<notin> set Object_prototype"
  shows
    "(data_page d = None \<longrightarrow>
        DOMContentLoaded JSON_parse d p = DOMContentLoaded JSON_parse (d\<lparr>data_page := Some ''1''\<rparr>) p) \<and>
     (data_classes d = None \<longrightarrow>
        DOMContentLoaded JSON_parse d p =
          DOMContentLoaded JSON_parse (d\<lparr>data_classes := Some ''[]''\<rparr>) p) \<and>
     (data_selected_filter d = None \<longrightarrow>
        DOMContentLoaded JSON_parse d p =
          DOMContentLoaded JSON_parse (d\<lparr>data_selected_filter := Some ''All''\<rparr>) p) \<and>
     (data_page d = None \<and> data_classes d = None \<and> data_selected_filter d = None \<longrightarrow>
        DOMContentLoaded JSON_parse d p = initializePage (Num 1) [] ''All'' p \<and>
        (\<exists>p'. DOMContentLoaded JSON_parse d p = Inr p' \<and> currentPage p' = Num 1 \<and>
           CLASSES p' = [] \<and> options (number_select p') = [([], ''All Numbers'')] \<and>
           options (subject_select p') = take 1 (options (subject_select p)))) \<and>
     (data_page ds = None \<longrightarrow>
        DOMContentLoaded_s JSON_parse JSON_parse_object array_sort subtract ds q =
          DOMContentLoaded_s JSON_parse JSON_parse_object array_sort subtract (ds\<lparr>data_page := Some ''1''\<rparr>) q) \<and>
     (data_classes ds = None \<longrightarrow>
        DOMContentLoaded_s JSON_parse JSON_parse_object array_sort subtract ds q =
          DOMContentLoaded_s JSON_parse JSON_parse_object array_sort subtract
            (ds\<lparr>data_classes := Some ''[]''\<rparr>) q) \<and>
     (data_courses_dict ds = None \<longrightarrow>
        DOMContentLoaded_s JSON_parse JSON_parse_object array_sort subtract ds q =
          DOMContentLoaded_s JSON_parse JSON_parse_object array_sort subtract
            (ds\<lparr>data_courses_dict := Some ''{}''\<rparr>) q) \<and>
     (data_subjects ds = None \<longrightarrow>
        DOMContentLoaded_s JSON_parse JSON_parse_object array_sort subtract ds q =
          DOMContentLoaded_s JSON_parse JSON_parse_object array_sort subtract
            (ds\<lparr>data_subjects := Some ''[]''\<rparr>) q) \<and>
     (data_selected_filter ds = None \<longrightarrow>
        DOMContentLoaded_s JSON_parse JSON_parse_object array_sort subtract ds q =
          DOMContentLoaded_s JSON_parse JSON_parse_object array_sort subtract
            (ds\<lparr>data_selected_filter := Some ''All''\<rparr>) q) \<and>
     (data_page ds = None \<and> data_classes ds = None \<and> data_courses_dict ds = None \<and>
      data_subjects ds = None \<and> data_selected_filter ds = None \<longrightarrow>
        DOMContentLoaded_s JSON_parse JSON_parse_object array_sort subtract ds q =
          initializePage_s array_sort subtract (Num 1) [] Map.empty [] ''All'' q \<and>
        (\<exists>q'. DOMContentLoaded_s JSON_parse JSON_parse_object array_sort subtract ds q = Inr q' \<and>
           currentPage q' = Num 1 \<and> CLASSES q' = [] \<and> COURSES_DICT q' = Map.empty \<and>
           SUBJECTS q' = [] \<and> options (number_select q') = [([], ''All Numbers'')] \<and>
           options (subject_select q') = take 1 (options (subject_select q))))"
proof -
  have flat: "DOMContentLoaded JSON_parse d p = initializePage (Num 1) [] ''All'' p"
    if "data_page d = None \<and> data_classes d = None \<and> data_selected_filter d = None"
    using that assms(1) by (simp add: DOMContentLoaded_def or_default_def parseInt_1)
  have flat_ok: "\<exists>p'. initializePage (Num 1) [] ''All'' p = Inr p' \<and> currentPage p' = Num 1 \<and>
           CLASSES p' = [] \<and> options (number_select p') = [([], ''All Numbers'')] \<and>
           options (subject_select p') = take 1 (options (subject_select p))"
    unfolding initializePage_defaults [OF assms(3)]
    by (simp add: single_option_def options_remove_all_but_first)
  have server: "DOMContentLoaded_s JSON_parse JSON_parse_object array_sort subtract ds q =
          initializePage_s array_sort subtract (Num 1) [] Map.empty [] ''All'' q"
    if "data_page ds = None \<and> data_classes ds = None \<and> data_courses_dict ds = None \<and>
      data_subjects ds = None \<and> data_selected_filter ds = None"
    using that assms(1,2) by (simp add: DOMContentLoaded_s_def or_default_def parseInt_1)
  note server_ok = initializePage_s_defaults [OF assms(4), of array_sort subtract]
  have d1: "DOMContentLoaded JSON_parse d p = DOMContentLoaded JSON_parse (d\<lparr>data_page := Some ''1''\<rparr>) p"
    if "data_page d = None"
    using that by (simp add: DOMContentLoaded_def or_default_def Let_def cong: sum.case_cong)
  have d2: "DOMContentLoaded JSON_parse d p =
          DOMContentLoaded JSON_parse (d\<lparr>data_classes := Some ''[]''\<rparr>) p"
    if "data_classes d = None"
    using that by (simp add: DOMContentLoaded_def or_default_def Let_def cong: sum.case_cong)
  have d3: "DOMContentLoaded JSON_parse d p =
          DOMContentLoaded JSON_parse (d\<lparr>data_selected_filter := Some ''All''\<rparr>) p"
    if "data_selected_filter d = None"
    using that by (simp add: DOMContentLoaded_def or_default_def Let_def cong: sum.case_cong)
  have s1: "DOMContentLoaded_s JSON_parse JSON_parse_object array_sort subtract ds q =
          DOMContentLoaded_s JSON_parse JSON_parse_object array_sort subtract (ds\<lparr>data_page := Some ''1''\<rparr>) q"
    if "data_page ds = None"
    using that by (simp add: DOMContentLoaded_s_def or_default_def Let_def cong: sum.case_cong)
  have s2: "DOMContentLoaded_s JSON_parse JSON_parse_object array_sort subtract ds q =
          DOMContentLoaded_s JSON_parse JSON_parse_object array_sort subtract
            (ds\<lparr>data_classes := Some ''[]''\<rparr>) q"
    if "data_classes ds = None"
    using that by (simp add: DOMContentLoaded_s_def or_default_def Let_def cong: sum.case_cong)
  have s3: "DOMContentLoaded_s JSON_parse JSON_parse_object array_sort subtract ds q =
          DOMContentLoaded_s JSON_parse JSON_parse_object array_sort subtract
            (ds\<lparr>data_courses_dict := Some ''{}''\<rparr>) q"
    if "data_courses_dict ds = None"
    using that by (simp add: DOMContentLoaded_s_def or_default_def Let_def cong: sum.case_cong)
  have s4: "DOMContentLoaded_s JSON_parse JSON_parse_object array_sort subtract ds q =
          DOMContentLoaded_s JSON_parse JSON_parse_object array_sort subtract
            (ds\<lparr>data_subjects := Some ''[]''\<rparr>) q"
    if "data_subjects ds = None"
    using that by (simp add: DOMContentLoaded_s_def or_default_def Let_def cong: sum.case_cong)
  have s5: "DOMContentLoaded_s JSON_parse JSON_parse_object array_sort subtract ds q =
          DOMContentLoaded_s JSON_parse JSON_parse_object array_sort subtract
            (ds\<lparr>data_selected_filter := Some ''All''\<rparr>) q"
    if "data_selected_filter ds = None"
    using that by (simp add: DOMContentLoaded_s_def or_default_def Let_def cong: sum.case_cong)
  show ?thesis
    using flat flat_ok server server_ok d1 d2 d3 s1 s2 s3 s4 s5
    by (intro conjI impI) simp_all
qed

theorem missing_attributes_default_witness:
  "map_sum id (\<lambda>p'. (currentPage p', CLASSES p', options (number_select p'),
       options (subject_select p')))
     (DOMContentLoaded parse_default_array no_page_data template_page) =
     Inr (Num 1, [], [([], ''All Numbers'')], [([], ''All Subjects'')]) \<and>
   map_sum id (\<lambda>q'. (currentPage q', CLASSES q', SUBJECTS q', options (number_select q'),
       options (subject_select q')))
     (DOMContentLoaded_s parse_default_array parse_default_object sort_with
        (\<lambda>a b. js_sub (parseInt a) (parseInt b)) no_page_data_s template_page_s) =
     Inr (Num 1, [], [], [([], ''All Numbers'')], [([], ''All Subjects'')])"
proof -
  have a: "parse_default_array ''[]'' = Inr []" "parse_default_object ''{}'' = Inr Map.empty"
    by (simp_all add: parse_default_array_def parse_default_object_def)
  have t: "\<forall>opt \<in> set (take 1 (options (subject_select template_page))).
             fst opt \<notin> set Object_prototype"
    "\<forall>opt \<in> set (take 1 (options (subject_select template_page_s))).
             fst opt \<notin> set Object_prototype"
    by (simp_all add: template_page_def template_page_s_def single_option_def
        Object_prototype_def)
  have n: "data_page no_page_data = None \<and> data_classes no_page_data = None \<and>
      data_selected_filter no_page_data = None"
    "data_page no_page_data_s = None \<and> data_classes no_page_data_s = None \<and>
      data_courses_dict no_page_data_s = None \<and> data_subjects no_page_data_s = None \<and>
      data_selected_filter no_page_data_s = None"
    by (simp_all add: no_page_data_def no_page_data_s_def)
  have o: "take 1 (options (subject_select template_page)) = [([], ''All Subjects'')]"
    "take 1 (options (subject_select template_page_s)) = [([], ''All Subjects'')]"
    by (simp_all add: template_page_def template_page_s_def single_option_def)
  note m = missing_attributes_default
    [where JSON_parse = parse_default_array and JSON_parse_object = parse_default_object
      and p = template_page and q = template_page_s
      and d = no_page_data and ds = no_page_data_s
      and array_sort = sort_with
      and subtract = "\<lambda>a b. js_sub (parseInt a) (parseInt b)", OF a t]
  note m4 = m [THEN conjunct2, THEN conjunct2, THEN conjunct2, THEN conjunct1, THEN mp, OF n(1)]
  note m10 = m [THEN conjunct2, THEN conjunct2, THEN conjunct2, THEN conjunct2, THEN conjunct2,
      THEN conjunct2, THEN conjunct2, THEN conjunct2, THEN conjunct2, THEN mp, OF n(2)]
  from m4 [THEN conjunct2] obtain p' where
    p': "DOMContentLoaded parse_default_array no_page_data template_page = Inr p'"
      "currentPage p' = Num 1" "CLASSES p' = []"
      "options (number_select p') = [([], ''All Numbers'')]"
      "options (subject_select p') = take 1 (options (subject_select template_page))"
    by (elim exE conjE)
  from m10 [THEN conjunct2] obtain q' where
    q': "DOMContentLoaded_s parse_default_array parse_default_object sort_with
        (\<lambda>a b. js_sub (parseInt a) (parseInt b)) no_page_data_s template_page_s = Inr q'"
      "currentPage q' = Num 1" "CLASSES q' = []" "SUBJECTS q' = []"
      "options (number_select q') = [([], ''All Numbers'')]"
      "options (subject_select q') = take 1 (options (subject_select template_page_s))"
    by (elim exE conjE)
  show ?thesis
    using p' q' o by simp
qed

end
